theory Spec2Isabelle
  imports Complex_Main "HOL-Library.Log_Nat"
begin

section \<open>Numbers and money\<close>

text \<open>
  The server (\<^verbatim>\<open>src/src/index.js\<close>) computes with JavaScript Numbers and stores money in
  PostgreSQL columns of type \<^verbatim>\<open>NUMERIC(14,2)\<close>.

  \<^item> A JavaScript Number is a binary64 value; the subsection on binary64 below gives
    the arithmetic with the rounding of every result, and \<open>round2_binary64\<close> is
    \<open>round2\<close> as the machine computes it. \<open>Number.EPSILON\<close> is \<open>2\<^sup>-\<^sup>5\<^sup>2\<close>.
  \<^item> The routes compute on amounts of whole cents read from the store; on these the
    definitions below use the exact operations on rationals (\<^typ>\<open>rat\<close>) and the
    function \<open>round2\<close> computed exactly.
  \<^item> \<open>Math.round\<close> returns the nearest integer, a tie going towards \<open>+\<infinity>\<close>
    (ECMAScript: \<open>floor(x + 0.5)\<close>).
  \<^item> A \<^verbatim>\<open>NUMERIC(14,2)\<close> value is modelled by its number of hundredths, an
    \<^typ>\<open>int\<close>. \<open>Number_of\<close> reads such a column into JavaScript, \<open>numeric2\<close> is
    PostgreSQL's coercion of a query parameter to the column: the value rounded to two
    decimals, a tie going away from zero. The bound of 14 digits is not modelled.
  \<^item> A number of a request body is a finite Number or not (\<open>NaN\<close>, an infinity, a
    missing field): \<open>Number.isFinite\<close> tells them apart.
\<close>

datatype js_number = Num rat | NotFinite

definition Number_of :: "int \<Rightarrow> rat" where
  "Number_of c = of_int c / 100"

definition numeric2 :: "rat \<Rightarrow> int" where
  "numeric2 x = (if 0 \<le> x then \<lfloor>x * 100 + 1 / 2\<rfloor> else - \<lfloor>- x * 100 + 1 / 2\<rfloor>)"

definition EPSILON :: rat where
  "EPSILON = 1 / 2 ^ 52"

definition Math_round :: "rat \<Rightarrow> rat" where
  "Math_round y = of_int \<lfloor>y + 1 / 2\<rfloor>"

text \<open>
  \<^verbatim>\<open>const round2 = (value) => Math.round((Number(value) + Number.EPSILON) * 100) / 100;\<close>
\<close>

definition round2 :: "rat \<Rightarrow> rat" where
  "round2 v = Math_round ((v + EPSILON) * 100) / 100"

text \<open>
  The rounding the specification names: to two decimals, a tie going away from zero.
  This definition follows the words of the specification, not the code.
\<close>

definition round_half_away2 :: "rat \<Rightarrow> rat" where
  "round_half_away2 y = sgn y * of_int \<lfloor>\<bar>y\<bar> * 100 + 1 / 2\<rfloor> / 100"

subsection \<open>Binary64\<close>

text \<open>
  A JavaScript Number is an IEEE 754 binary64 value: a finite one is the rational it
  denotes, and there are the two infinities and \<open>NaN\<close>. The sign of zero is not modelled
  (no route divides by a computed zero). Every arithmetic operation returns its exact
  result rounded to the nearest double, a tie going to the even significand (\<open>fl\<close>): the
  doubles around \<open>x\<close> are the multiples of \<open>2\<^sup>q\<close>, where \<open>q\<close> is the exponent of \<open>x\<close> less 52
  and at least \<open>-1074\<close> (the subnormal range). A rounded result of magnitude \<open>2\<^sup>1\<^sup>0\<^sup>2\<^sup>4\<close> or
  more is an infinity.
\<close>

definition floor_log2 :: "rat \<Rightarrow> int" where
  "floor_log2 x =
     (let (a, b) = quotient_of \<bar>x\<bar>; e = bitlen a - bitlen b
      in if 2 powi e \<le> \<bar>x\<bar> then e else e - 1)"

definition round_to_even :: "rat \<Rightarrow> int" where
  "round_to_even m =
     (let f = \<lfloor>m\<rfloor>; r = m - of_int f
      in if r < 1 / 2 then f else if 1 / 2 < r then f + 1 else if even f then f else f + 1)"

definition quantum :: "rat \<Rightarrow> int" where
  "quantum x = max (floor_log2 x - 52) (- 1074)"

definition fl :: "rat \<Rightarrow> rat" where
  "fl x = (if x = 0 then 0
           else of_int (round_to_even (x / 2 powi quantum x)) * 2 powi quantum x)"

datatype binary64 = Finite rat | PlusInf | MinusInf | NaN

definition overflow_threshold :: rat where
  "overflow_threshold = 2 ^ 1024"

definition rounded :: "rat \<Rightarrow> binary64" where
  "rounded x = (let y = fl x
                in if overflow_threshold \<le> \<bar>y\<bar> then (if 0 < y then PlusInf else MinusInf)
                   else Finite y)"

fun plus64 :: "binary64 \<Rightarrow> binary64 \<Rightarrow> binary64" where
  "plus64 (Finite a) (Finite b) = rounded (a + b)"
| "plus64 NaN y = NaN"
| "plus64 x NaN = NaN"
| "plus64 PlusInf MinusInf = NaN"
| "plus64 MinusInf PlusInf = NaN"
| "plus64 PlusInf y = PlusInf"
| "plus64 x PlusInf = PlusInf"
| "plus64 MinusInf y = MinusInf"
| "plus64 x MinusInf = MinusInf"

fun uminus64 :: "binary64 \<Rightarrow> binary64" where
  "uminus64 (Finite a) = Finite (- a)"
| "uminus64 PlusInf = MinusInf"
| "uminus64 MinusInf = PlusInf"
| "uminus64 NaN = NaN"

definition minus64 :: "binary64 \<Rightarrow> binary64 \<Rightarrow> binary64" where
  "minus64 x y = plus64 x (uminus64 y)"

fun times64 :: "binary64 \<Rightarrow> binary64 \<Rightarrow> binary64" where
  "times64 (Finite a) (Finite b) = rounded (a * b)"
| "times64 NaN y = NaN"
| "times64 x NaN = NaN"
| "times64 (Finite a) PlusInf = (if a = 0 then NaN else if 0 < a then PlusInf else MinusInf)"
| "times64 (Finite a) MinusInf = (if a = 0 then NaN else if 0 < a then MinusInf else PlusInf)"
| "times64 PlusInf (Finite b) = (if b = 0 then NaN else if 0 < b then PlusInf else MinusInf)"
| "times64 MinusInf (Finite b) = (if b = 0 then NaN else if 0 < b then MinusInf else PlusInf)"
| "times64 PlusInf PlusInf = PlusInf"
| "times64 MinusInf MinusInf = PlusInf"
| "times64 PlusInf MinusInf = MinusInf"
| "times64 MinusInf PlusInf = MinusInf"

fun divide64 :: "binary64 \<Rightarrow> binary64 \<Rightarrow> binary64" where
  "divide64 (Finite a) (Finite b) =
     (if b = 0 then (if a = 0 then NaN else if 0 < a then PlusInf else MinusInf)
      else rounded (a / b))"
| "divide64 (Finite a) PlusInf = Finite 0"
| "divide64 (Finite a) MinusInf = Finite 0"
| "divide64 PlusInf (Finite b) = (if 0 \<le> b then PlusInf else MinusInf)"
| "divide64 MinusInf (Finite b) = (if 0 \<le> b then MinusInf else PlusInf)"
| "divide64 x y = NaN"

fun less64 :: "binary64 \<Rightarrow> binary64 \<Rightarrow> bool" where
  "less64 (Finite a) (Finite b) = (a < b)"
| "less64 NaN y = False"
| "less64 x NaN = False"
| "less64 x MinusInf = False"
| "less64 PlusInf y = False"
| "less64 MinusInf y = True"
| "less64 x PlusInf = True"

text \<open>\<open>Math.round\<close> on a double: the result is an integer below \<open>2\<^sup>5\<^sup>3\<close> or the argument itself.\<close>

fun Math_round64 :: "binary64 \<Rightarrow> binary64" where
  "Math_round64 (Finite y) = Finite (of_int \<lfloor>y + 1 / 2\<rfloor>)"
| "Math_round64 x = x"

text \<open>
  \<^verbatim>\<open>const round2 = (value) => Math.round((Number(value) + Number.EPSILON) * 100) / 100;\<close>
  with the three arithmetic operations rounded as the machine rounds them.
\<close>

definition round2_binary64 :: "binary64 \<Rightarrow> binary64" where
  "round2_binary64 v =
     divide64 (Math_round64 (times64 (plus64 v (Finite EPSILON)) (Finite 100))) (Finite 100)"

text \<open>
  \<open>String(y)\<close> of a finite double, which is how the driver sends a Number to the
  database: the decimal with the fewest significant digits that reads back as \<open>y\<close>, the
  nearest to \<open>y\<close> if there are several (ECMAScript, \<open>Number::toString\<close>). Seventeen digits
  always suffice for a double; for a rational that is no double the value itself is
  returned.
\<close>

definition floor_log10 :: "rat \<Rightarrow> int" where
  "floor_log10 x =
     (let e = (floor_log2 x * 30103) div 100000
      in if 10 powi (e + 1) \<le> \<bar>x\<bar> then e + 1 else if \<bar>x\<bar> < 10 powi e then e - 1 else e)"

definition decimal_with :: "rat \<Rightarrow> nat \<Rightarrow> rat option" where
  "decimal_with y k =
     (let q = 10 powi (floor_log10 y + 1 - int k);
          lo = \<lfloor>\<bar>y\<bar> / q\<rfloor>; hi = \<lceil>\<bar>y\<bar> / q\<rceil>;
          below = \<bar>y\<bar> / q - of_int lo; above = of_int hi - \<bar>y\<bar> / q;
          nearest = (if below < above \<or> (below = above \<and> even lo) then [lo, hi] else [hi, lo])
      in case filter (\<lambda>d. fl d = y) (map (\<lambda>m. sgn y * (of_int m * q)) nearest) of
           [] \<Rightarrow> None
         | d # ds \<Rightarrow> Some d)"

definition shortest_decimal :: "rat \<Rightarrow> rat" where
  "shortest_decimal y =
     (case List.map_filter (decimal_with y) [1 ..< 18] of [] \<Rightarrow> y | d # ds \<Rightarrow> d)"

text \<open>
  A Number stored in a \<^verbatim>\<open>NUMERIC(14,2)\<close> column: PostgreSQL reads the decimal the driver
  sent, rounds it to two decimals (a tie away from zero) and rejects the statement
  (\<open>numeric field overflow\<close>) when the result has more than twelve digits before the
  point, or when the Number is an infinity. \<open>Number64\<close> reads a column back into
  JavaScript: \<open>Number("12.34")\<close>.
\<close>

fun numeric_14_2 :: "binary64 \<Rightarrow> int option" where
  "numeric_14_2 (Finite y) =
     (let c = numeric2 (shortest_decimal y)
      in if \<bar>c\<bar> < 100000000000000 then Some c else None)"
| "numeric_14_2 v = None"

definition Number64 :: "int \<Rightarrow> binary64" where
  "Number64 c = rounded (of_int c / 100)"

text \<open>Bounds used in the statements about rounding: \<open>2\<^sup>1\<^sup>0\<^sup>0\<^sup>0\<close>, and two hundred billion cents.\<close>

definition big :: rat where
  "big = 2 ^ 1000"

definition cents_bound :: int where
  "cents_bound = 200000000000000"

definition tiny :: rat where
  "tiny = 1 / 2 ^ 1075"

section \<open>Calendar dates and the fortnightly schedule\<close>

text \<open>
  A date reaches the code in two forms. A field of a request body and every result of
  \<open>toDateOnly\<close> is a string; a \<^verbatim>\<open>DATE\<close> column read through node-postgres, for which the
  file installs no type parser, is a \<open>Date\<close> object for local midnight of the day. The
  model keeps the year, month and day of either form; \<open>month\<close> runs from 1 to 12, so
  \<open>getMonth()\<close> is \<open>month - 1\<close>. Strings \<^verbatim>\<open>YYYY-MM-DD\<close> are compared as JavaScript compares
  strings, which for four-digit years is the order of the triples.
\<close>

record date =
  year :: int
  month :: int
  day :: int

definition date_less :: "date \<Rightarrow> date \<Rightarrow> bool" where
  "date_less a b \<longleftrightarrow>
     year a < year b \<or>
     (year a = year b \<and> (month a < month b \<or> (month a = month b \<and> day a < day b)))"

text \<open>
  A calendar date, as a \<^verbatim>\<open>DATE\<close> column accepts it from a string \<^verbatim>\<open>YYYY-MM-DD\<close>. The
  functions below are meant for such dates: the routes hand them a string only after
  an \<^verbatim>\<open>INSERT\<close> has accepted it.
\<close>

definition leap_year :: "int \<Rightarrow> bool" where
  "leap_year y \<longleftrightarrow> (y mod 4 = 0 \<and> y mod 100 \<noteq> 0) \<or> y mod 400 = 0"

definition days_in_month :: "int \<Rightarrow> int \<Rightarrow> int" where
  "days_in_month y m =
     (if m = 2 then (if leap_year y then 29 else 28)
      else if m = 4 \<or> m = 6 \<or> m = 9 \<or> m = 11 then 30 else 31)"

definition date_ok :: "date \<Rightarrow> bool" where
  "date_ok d \<longleftrightarrow> 1 \<le> year d \<and> year d \<le> 9999 \<and> 1 \<le> month d \<and> month d \<le> 12 \<and>
     1 \<le> day d \<and> day d \<le> days_in_month (year d) (month d)"

text \<open>\<open>toDateOnly\<close> on a field of a request body: today's date when the field is missing.\<close>

definition toDateOnly :: "date \<Rightarrow> date option \<Rightarrow> date" where
  "toDateOnly today dateValue = (case dateValue of None \<Rightarrow> today | Some d \<Rightarrow> d)"

text \<open>
  The ten characters \<open>toDateOnly\<close> cuts from \<open>toISOString\<close>: a date, or no date when the
  year is outside 0..9999, which \<open>toISOString\<close> writes with a sign and six digits.
\<close>

datatype date_string = Iso date | Garbled

text \<open>
  What the code hands to \<open>nextQuincenalFrom\<close> and \<open>nextQuincenalAfter\<close>: a string, or the
  \<open>Date\<close> object of a \<^verbatim>\<open>DATE\<close> column.
\<close>

datatype js_date = String_value date_string | Date_object date

text \<open>
  The time zone of the server matters in one respect: \<open>new Date(y, m, d)\<close> is local
  midnight and \<open>toISOString\<close> writes the UTC day of that instant, which is the same day
  in a zone at or behind UTC and the day before in a zone ahead of UTC. The zone is
  taken to keep its side of UTC at every date; daylight saving time is not modelled.
\<close>

datatype zone = Utc_or_west | East_of_utc

definition day_before :: "date \<Rightarrow> date" where
  "day_before d =
     (if day d > 1 then \<lparr>year = year d, month = month d, day = day d - 1\<rparr>
      else if month d > 1
      then \<lparr>year = year d, month = month d - 1,
            day = days_in_month (year d) (month d - 1)\<rparr>
      else \<lparr>year = year d - 1, month = 12, day = 31\<rparr>)"

text \<open>
  The local calendar day of \<open>new Date(y, monthIndex, d)\<close>: a year from 0 to 99 means
  1900 + year, and a month index outside 0..11 carries into the year (ECMAScript
  \<open>MakeDay\<close>). The day is 1 or 15 at every call, so it never overflows the month.
\<close>

definition new_Date :: "int \<Rightarrow> int \<Rightarrow> int \<Rightarrow> date" where
  "new_Date y monthIndex d =
     (let yr = (if 0 \<le> y \<and> y \<le> 99 then 1900 + y else y)
      in \<lparr>year = yr + monthIndex div 12, month = monthIndex mod 12 + 1, day = d\<rparr>)"

text \<open>\<open>toDateOnly\<close> on a \<open>Date\<close> object that is local midnight of the day \<open>local\<close>.\<close>

definition toDateOnly_Date :: "zone \<Rightarrow> date \<Rightarrow> date_string" where
  "toDateOnly_Date z local =
     (let utc = (case z of Utc_or_west \<Rightarrow> local | East_of_utc \<Rightarrow> day_before local)
      in if 0 \<le> year utc \<and> year utc \<le> 9999 then Iso utc else Garbled)"

text \<open>
  \<open>new Date(dateString + "T00:00:00")\<close> reads a date string as local midnight of that day.
  A string that is no date gives an invalid \<open>Date\<close>, and so does a \<open>Date\<close> object, whose
  concatenation with \<^verbatim>\<open>"T00:00:00"\<close> is no date string.
\<close>

definition parse_local :: "js_date \<Rightarrow> date option" where
  "parse_local v = (case v of String_value (Iso d) \<Rightarrow> Some d | _ \<Rightarrow> None)"

text \<open>
  On an invalid \<open>Date\<close> the three fields are \<open>NaN\<close>, both comparisons of the day fail, and
  \<open>toISOString\<close> of the invalid \<open>Date\<close> built from them throws \<open>RangeError\<close>: \<open>None\<close>.
\<close>

definition nextQuincenalFrom :: "zone \<Rightarrow> js_date \<Rightarrow> date_string option" where
  "nextQuincenalFrom z dateString =
     (case parse_local dateString of
        None \<Rightarrow> None
      | Some date \<Rightarrow>
          (let y = year date; m = month date - 1; d = day date
           in if d \<le> 1 then Some (toDateOnly_Date z (new_Date y m 1))
              else if d \<le> 15 then Some (toDateOnly_Date z (new_Date y m 15))
              else Some (toDateOnly_Date z (new_Date y (m + 1) 1))))"

definition nextQuincenalAfter :: "zone \<Rightarrow> js_date \<Rightarrow> date_string option" where
  "nextQuincenalAfter z dateString =
     (case parse_local dateString of
        None \<Rightarrow> None
      | Some date \<Rightarrow>
          (let y = year date; m = month date - 1; d = day date
           in if d \<le> 1 then Some (toDateOnly_Date z (new_Date y m 15))
              else if d \<le> 15 then Some (toDateOnly_Date z (new_Date y (m + 1) 1))
              else Some (toDateOnly_Date z (new_Date y (m + 1) 15))))"

text \<open>
  The loop of \<open>buildQuincenalSchedule\<close>, with its variables \<open>i\<close>, \<open>current\<close> and
  \<open>dates\<close>; \<open>None\<close> is the \<open>RangeError\<close> of a step:
  \<^verbatim>\<open>for (let i = 1; i <= installmentsCount; i += 1) {
    const dueDate = i === 1 ? current : nextQuincenalAfter(current);
    dates.push(dueDate); current = dueDate; }\<close>
\<close>

function schedule_loop ::
  "zone \<Rightarrow> int \<Rightarrow> int \<Rightarrow> date_string \<Rightarrow> date_string list \<Rightarrow> date_string list option" where
  "schedule_loop z i installmentsCount current dates =
     (if i \<le> installmentsCount
      then (case (if i = 1 then Some current
                  else nextQuincenalAfter z (String_value current)) of
              None \<Rightarrow> None
            | Some dueDate \<Rightarrow>
                schedule_loop z (i + 1) installmentsCount dueDate (dates @ [dueDate]))
      else Some dates)"
  by pat_completeness auto
termination
  by (relation "measure (\<lambda>(z, i, n, c, ds). nat (n + 1 - i))") auto

declare schedule_loop.simps [simp del]

definition buildQuincenalSchedule :: "zone \<Rightarrow> js_date \<Rightarrow> int \<Rightarrow> date_string list option" where
  "buildQuincenalSchedule z loanDateValue installmentsCount =
     (case nextQuincenalFrom z loanDateValue of
        None \<Rightarrow> None
      | Some current \<Rightarrow> schedule_loop z 1 installmentsCount current [])"

text \<open>
  The schedule in the words of the specification: \<open>nextOnOrAfter\<close> is the 1st of the month
  for a day up to 1, the 15th for a day up to 15, else the 1st of the next month;
  \<open>nextStrictlyAfter\<close> is the 15th of the month for a day up to 1, the 1st of the next
  month for a day up to 15, else the 15th of the next month. These two definitions
  follow the specification, not the code.
\<close>

definition first_of_next_month :: "date \<Rightarrow> int \<Rightarrow> date" where
  "first_of_next_month d dayOfMonth =
     (if month d = 12 then \<lparr>year = year d + 1, month = 1, day = dayOfMonth\<rparr>
      else \<lparr>year = year d, month = month d + 1, day = dayOfMonth\<rparr>)"

definition nextOnOrAfter :: "date \<Rightarrow> date" where
  "nextOnOrAfter d =
     (if day d \<le> 1 then \<lparr>year = year d, month = month d, day = 1\<rparr>
      else if day d \<le> 15 then \<lparr>year = year d, month = month d, day = 15\<rparr>
      else first_of_next_month d 1)"

definition nextStrictlyAfter :: "date \<Rightarrow> date" where
  "nextStrictlyAfter d =
     (if day d \<le> 1 then \<lparr>year = year d, month = month d, day = 15\<rparr>
      else if day d \<le> 15 then first_of_next_month d 1
      else first_of_next_month d 15)"

text \<open>
  The comparison \<open>installment.due_date < today\<close> of the status refresh has the \<open>Date\<close>
  object of the column on its left and the string \<open>today\<close> on its right. JavaScript
  compares the two as numbers: the \<open>Date\<close> gives its time value, the string \<^verbatim>\<open>YYYY-MM-DD\<close>
  gives \<open>NaN\<close>, and a comparison with \<open>NaN\<close> is false. \<open>None\<close> stands for \<open>NaN\<close>; the time
  value is counted in days, which is enough to order two instants of local midnight.
\<close>

definition days_before_year :: "int \<Rightarrow> int" where
  "days_before_year y = 365 * (y - 1) + (y - 1) div 4 - (y - 1) div 100 + (y - 1) div 400"

definition day_number :: "date \<Rightarrow> int" where
  "day_number d =
     days_before_year (year d)
     + sum_list (map (days_in_month (year d)) [1 .. month d - 1]) + day d"

definition StringToNumber_date :: "date \<Rightarrow> int option" where
  "StringToNumber_date dateString = None"

definition less_than :: "int option \<Rightarrow> int option \<Rightarrow> bool" where
  "less_than a b = (case (a, b) of (Some x, Some y) \<Rightarrow> x < y | _ \<Rightarrow> False)"

definition Date_less_string :: "date \<Rightarrow> date \<Rightarrow> bool" where
  "Date_less_string due_date today =
     less_than (Some (day_number due_date)) (StringToNumber_date today)"

section \<open>Loan figures\<close>

record loan_fields =
  lf_baseInstallment :: rat
  lf_interestPerInstallment :: rat
  lf_installmentTotal :: rat
  lf_totalPayable :: rat

definition computeLoanFields :: "rat \<Rightarrow> rat \<Rightarrow> loan_fields" where
  "computeLoanFields amount installmentsCount =
     (let baseInstallment = round2 (amount / installmentsCount);
          interestPerInstallment = round2 (amount * (5 / 100));
          installmentTotal = round2 (baseInstallment + interestPerInstallment);
          totalPayable = round2 (installmentTotal * installmentsCount)
      in \<lparr>lf_baseInstallment = baseInstallment,
          lf_interestPerInstallment = interestPerInstallment,
          lf_installmentTotal = installmentTotal,
          lf_totalPayable = totalPayable\<rparr>)"

section \<open>The store\<close>

text \<open>
  The tables of \<open>initDb\<close>. A table is the list of its rows in insertion order; a
  \<^verbatim>\<open>SERIAL\<close> key comes from a counter kept with the table. The columns \<open>created_at\<close> and
  \<open>updated_at\<close> hold the wall-clock time of the write and are read by no computation: they
  are left out, as is the serial key of a capital movement. The \<^verbatim>\<open>TEXT\<close> columns \<open>status\<close>
  and \<open>type\<close> only ever receive the values listed here.
\<close>

datatype installment_status = Pendiente | Atrasada | Pagada

datatype loan_status = Activo | Finalizado | En_mora

datatype movement_type = Manual_set | Manual_adjust | Loan_movement | Payment_movement | Payoff_movement

datatype payment_type = Normal_payment | Payoff_payment

record capital_movement =
  cm_type :: movement_type
  cm_amount :: int
  cm_loan_id :: "nat option"
  cm_payment_id :: "nat option"
  cm_note :: "string option"

record client_row =
  c_id :: nat
  c_full_name :: string
  c_document :: string
  c_phone :: string
  c_address :: "string option"

record loan_row =
  l_id :: nat
  l_client_id :: nat
  l_amount :: int
  l_loan_date :: date
  l_installments_count :: int
  l_status :: loan_status
  l_notes :: "string option"
  l_base_installment :: int
  l_interest_per_installment :: int
  l_installment_total :: int
  l_total_payable :: int
  l_paid_total :: int
  l_pending_total :: int

record installment_row =
  i_id :: nat
  i_loan_id :: nat
  i_number :: int
  i_due_date :: date
  i_amount :: int
  i_status :: installment_status
  i_paid_date :: "date option"
  i_paid_amount :: int

record payment_row =
  p_id :: nat
  p_client_id :: nat
  p_loan_id :: nat
  p_installment_id :: "nat option"
  p_payment_date :: date
  p_amount :: int
  p_type :: payment_type
  p_notes :: "string option"

record db =
  capital :: int
  capital_movements :: "capital_movement list"
  clients :: "client_row list"
  loans :: "loan_row list"
  installments :: "installment_row list"
  payments :: "payment_row list"
  next_client_id :: nat
  next_loan_id :: nat
  next_installment_id :: nat
  next_payment_id :: nat

text \<open>The state \<open>initDb\<close> leaves on an empty database: the capital row holds 0.\<close>

definition initDb :: db where
  "initDb = \<lparr>capital = 0, capital_movements = [], clients = [], loans = [],
     installments = [], payments = [],
     next_client_id = 1, next_loan_id = 1, next_installment_id = 1, next_payment_id = 1\<rparr>"

text \<open>\<^verbatim>\<open>SUM(col)\<close> is \<^verbatim>\<open>NULL\<close> over no rows; the server reads it with \<^verbatim>\<open>?? 0\<close>.\<close>

definition sql_sum :: "int list \<Rightarrow> int option" where
  "sql_sum xs = (if xs = [] then None else Some (sum_list xs))"

definition installments_of :: "nat \<Rightarrow> db \<Rightarrow> installment_row list" where
  \<comment> \<open>\<^verbatim>\<open>SELECT ... FROM installments WHERE loan_id = $1\<close>\<close>
  "installments_of loanId s = filter (\<lambda>r. i_loan_id r = loanId) (installments s)"

definition installments_by_number :: "nat \<Rightarrow> db \<Rightarrow> installment_row list" where
  \<comment> \<open>\<^verbatim>\<open>SELECT ... FROM installments WHERE loan_id = $1 ORDER BY number ASC\<close>\<close>
  "installments_by_number loanId s = sort_key i_number (installments_of loanId s)"

definition find_loan :: "nat \<Rightarrow> db \<Rightarrow> loan_row option" where
  \<comment> \<open>\<^verbatim>\<open>SELECT * FROM loans WHERE id = $1\<close>\<close>
  "find_loan loanId s = find (\<lambda>l. l_id l = loanId) (loans s)"

definition find_client :: "nat \<Rightarrow> db \<Rightarrow> client_row option" where
  "find_client clientId s = find (\<lambda>c. c_id c = clientId) (clients s)"

definition find_installment :: "nat \<Rightarrow> db \<Rightarrow> installment_row option" where
  "find_installment installmentId s = find (\<lambda>r. i_id r = installmentId) (installments s)"

definition update_installment :: "nat \<Rightarrow> (installment_row \<Rightarrow> installment_row) \<Rightarrow> db \<Rightarrow> db" where
  \<comment> \<open>\<^verbatim>\<open>UPDATE installments SET ... WHERE id = $n\<close>\<close>
  "update_installment installmentId f s =
     s\<lparr>installments := map (\<lambda>r. if i_id r = installmentId then f r else r) (installments s)\<rparr>"

definition update_loan :: "nat \<Rightarrow> (loan_row \<Rightarrow> loan_row) \<Rightarrow> db \<Rightarrow> db" where
  \<comment> \<open>\<^verbatim>\<open>UPDATE loans SET ... WHERE id = $n\<close>\<close>
  "update_loan loanId f s =
     s\<lparr>loans := map (\<lambda>l. if l_id l = loanId then f l else l) (loans s)\<rparr>"

definition setCapital :: "rat \<Rightarrow> db \<Rightarrow> db" where
  \<comment> \<open>\<^verbatim>\<open>UPDATE capital SET amount = $1, updated_at = $2 WHERE id = 1\<close>\<close>
  "setCapital amount s = s\<lparr>capital := numeric2 amount\<rparr>"

definition insertCapitalMovement ::
  "movement_type \<Rightarrow> rat \<Rightarrow> nat option \<Rightarrow> nat option \<Rightarrow> string option \<Rightarrow> db \<Rightarrow> db" where
  "insertCapitalMovement type amount loanId paymentId note s =
     s\<lparr>capital_movements := capital_movements s @
        [\<lparr>cm_type = type, cm_amount = numeric2 amount, cm_loan_id = loanId,
          cm_payment_id = paymentId, cm_note = note\<rparr>]\<rparr>"

text \<open>
  A value of a request body used as a condition (\<open>!clientId\<close>, \<open>installmentId\<close>): a
  missing field and the number 0 are falsy.
\<close>

definition truthy :: "nat option \<Rightarrow> bool" where
  "truthy v = (case v of None \<Rightarrow> False | Some n \<Rightarrow> n \<noteq> 0)"

text \<open>
  What a handler gives back: a JSON body with its status, or nothing when an exception
  leaves the handler (\<open>Thrown\<close>).
\<close>

datatype reply =
    Status400 string
  | Status404 string
  | Capital_json int
  | Created_id nat
  | Created_payment nat rat
  | Status_json loan_status
  | Deleted_ok
  | Deleted_client_ok nat
  | Loan_json loan_row "installment_row list" "payment_row list"
  | Fixed_json nat nat
  | Thrown

text \<open>
  A storage error is an awaited query that rejects. Between \<^verbatim>\<open>BEGIN\<close> and \<^verbatim>\<open>COMMIT\<close> the
  statements of a handler act on the connection's own copy of the store, which \<^verbatim>\<open>ROLLBACK\<close>
  throws away and \<^verbatim>\<open>COMMIT\<close> installs: wherever the error falls there, the \<open>catch\<close> block
  finds the store as it was at \<^verbatim>\<open>BEGIN\<close>. A statement sent through \<open>pool.query\<close> is
  committed on its own. The fault of a run says where an error is raised, if anywhere:
  at some statement of the transaction, up to and including its \<^verbatim>\<open>COMMIT\<close>, or at the
  first query a handler sends after its \<^verbatim>\<open>COMMIT\<close>.
\<close>

datatype fault = No_fault | Error_in_transaction | Error_after_commit

section \<open>Schedule repair\<close>

text \<open>
  The transaction of \<open>ensureQuincenalInstallments\<close>, which the maintenance route repeats
  for every loan: row \<open>i\<close> of the loan receives \<open>schedule[i]\<close>. Past the end of the
  schedule \<open>schedule[i]\<close> is \<open>undefined\<close>, sent as \<^verbatim>\<open>NULL\<close> to a \<^verbatim>\<open>NOT NULL\<close> column, and a
  string that is no date is refused by the \<^verbatim>\<open>DATE\<close> column: the query rejects (\<open>None\<close>).
\<close>

fun repair_loop :: "installment_row list \<Rightarrow> date_string list \<Rightarrow> db \<Rightarrow> db option" where
  "repair_loop [] schedule s = Some s"
| "repair_loop (row # rows) [] s = None"
| "repair_loop (row # rows) (Garbled # schedule) s = None"
| "repair_loop (row # rows) (Iso d # schedule) s =
     (if date_ok d
      then repair_loop rows schedule (update_installment (i_id row) (\<lambda>r. r\<lparr>i_due_date := d\<rparr>) s)
      else None)"

definition repair_transaction ::
  "fault \<Rightarrow> installment_row list \<Rightarrow> date_string list \<Rightarrow> db \<Rightarrow> db option" where
  "repair_transaction fault rows schedule s =
     (if fault = Error_in_transaction then None else repair_loop rows schedule s)"

text \<open>
  \<open>ensureQuincenalInstallments\<close> gives the store it leaves and whether it threw. Its
  argument is a row of \<open>loans\<close> as node-postgres returns it, so \<open>loan.loan_date\<close> is a
  \<open>Date\<close> object, and so is the \<open>due_date\<close> of every installment it reads. A \<open>RangeError\<close> of
  \<open>buildQuincenalSchedule\<close> leaves the function before it takes a connection; after
  \<^verbatim>\<open>ROLLBACK\<close> the store is the one it found.
\<close>

definition ensureQuincenalInstallments :: "zone \<Rightarrow> fault \<Rightarrow> loan_row \<Rightarrow> db \<Rightarrow> bool \<times> db" where
  "ensureQuincenalInstallments z fault loan s =
     (let rows = installments_by_number (l_id loan) s
      in if length rows \<le> 1 then (False, s)
         else if length (remdups (map (\<lambda>row. toDateOnly_Date z (i_due_date row)) rows)) > 1
         then (False, s)
         else (case buildQuincenalSchedule z (Date_object (l_loan_date loan))
                      (l_installments_count loan) of
                 None \<Rightarrow> (True, s)
               | Some schedule \<Rightarrow>
                   (case repair_transaction fault rows schedule s of
                      None \<Rightarrow> (True, s)
                    | Some s' \<Rightarrow> (False, s'))))"

section \<open>Installment and loan status\<close>

fun refresh_loop :: "date \<Rightarrow> installment_row list \<Rightarrow> db \<Rightarrow> db" where
  "refresh_loop today [] s = s"
| "refresh_loop today (installment # rest) s =
     refresh_loop today rest
       (if Number_of (i_paid_amount installment) \<ge> Number_of (i_amount installment)
           \<and> i_status installment \<noteq> Pagada
        then update_installment (i_id installment) (\<lambda>r. r\<lparr>i_status := Pagada\<rparr>) s
        else if Date_less_string (i_due_date installment) today
           \<and> Number_of (i_paid_amount installment) < Number_of (i_amount installment)
        then (if i_status installment \<noteq> Atrasada
              then update_installment (i_id installment) (\<lambda>r. r\<lparr>i_status := Atrasada\<rparr>) s
              else s)
        else if Number_of (i_paid_amount installment) < Number_of (i_amount installment)
           \<and> i_status installment \<noteq> Pendiente
        then update_installment (i_id installment) (\<lambda>r. r\<lparr>i_status := Pendiente\<rparr>) s
        else s)"

definition refreshInstallmentStatuses :: "date \<Rightarrow> nat \<Rightarrow> db \<Rightarrow> db" where
  "refreshInstallmentStatuses today loanId s = refresh_loop today (installments_of loanId s) s"

definition updateLoanTotalsAndStatus :: "date \<Rightarrow> nat \<Rightarrow> db \<Rightarrow> db" where
  "updateLoanTotalsAndStatus today loanId s0 =
     (let s = refreshInstallmentStatuses today loanId s0;
          rows = installments_of loanId s;
          paidTotal = round2 (case sql_sum (map i_paid_amount rows) of
                                None \<Rightarrow> 0 | Some v \<Rightarrow> Number_of v);
          amountTotal = round2 (case sql_sum (map i_amount rows) of
                                  None \<Rightarrow> 0 | Some v \<Rightarrow> Number_of v);
          pendingTotal = round2 (amountTotal - paidTotal);
          late = (case sql_sum (map (\<lambda>r. if i_status r = Atrasada then 1 else 0) rows) of
                    None \<Rightarrow> 0 | Some n \<Rightarrow> n);
          status = (if pendingTotal \<le> 0 then Finalizado
                    else if late > 0 then En_mora else Activo)
      in update_loan loanId
           (\<lambda>l. l\<lparr>l_paid_total := numeric2 paidTotal, l_pending_total := numeric2 pendingTotal,
                 l_status := status\<rparr>) s)"

section \<open>Cascade deletion\<close>

text \<open>
  \<open>deleteLoanCascade\<close> inside the caller's transaction. Deleting the loan's installments
  rejects (\<open>None\<close>) when a payment that stays still points at one of them
  (\<open>payments.installment_id REFERENCES installments(id)\<close>).
\<close>

definition deleteLoanCascade :: "nat \<Rightarrow> db \<Rightarrow> db option" where
  "deleteLoanCascade loanId s =
     (let paymentIds = map p_id (filter (\<lambda>p. p_loan_id p = loanId) (payments s));
          s1 = s\<lparr>capital_movements :=
                  filter (\<lambda>m. cm_loan_id m \<noteq> Some loanId) (capital_movements s)\<rparr>;
          s2 = (if length paymentIds > 0
                then s1\<lparr>capital_movements :=
                        filter (\<lambda>m. case cm_payment_id m of
                                      None \<Rightarrow> True | Some pid \<Rightarrow> pid \<notin> set paymentIds)
                          (capital_movements s1)\<rparr>
                else s1);
          s3 = s2\<lparr>payments := filter (\<lambda>p. p_loan_id p \<noteq> loanId) (payments s2)\<rparr>;
          gone = map i_id (installments_of loanId s3)
      in if \<exists>p \<in> set (payments s3).
              case p_installment_id p of None \<Rightarrow> False | Some iid \<Rightarrow> iid \<in> set gone
         then None
         else Some (s3\<lparr>installments := filter (\<lambda>r. i_loan_id r \<noteq> loanId) (installments s3),
                       loans := filter (\<lambda>l. l_id l \<noteq> loanId) (loans s3)\<rparr>))"

section \<open>Capital, clients and loans\<close>

definition put_capital :: "js_number \<Rightarrow> db \<Rightarrow> reply \<times> db" where
  "put_capital body_amount s =
     (case body_amount of
        NotFinite \<Rightarrow> (Status400 ''amount must be a non-negative number'', s)
      | Num amount \<Rightarrow>
          if amount < 0 then (Status400 ''amount must be a non-negative number'', s)
          else
            (let delta = round2 (amount - Number_of (capital s));
                 s1 = setCapital (round2 amount) s;
                 s2 = (if delta \<noteq> 0
                       then insertCapitalMovement Manual_set delta None None
                              (Some ''Capital actualizado manualmente'') s1
                       else s1)
             in (Capital_json (capital s2), s2)))"

definition post_capital_adjust :: "js_number \<Rightarrow> string option \<Rightarrow> db \<Rightarrow> reply \<times> db" where
  "post_capital_adjust body_delta note s =
     (case body_delta of
        NotFinite \<Rightarrow> (Status400 ''delta must be a number'', s)
      | Num delta \<Rightarrow>
          (let next = round2 (Number_of (capital s) + delta)
           in if next < 0 then (Status400 ''capital cannot be negative'', s)
              else
                (let s1 = setCapital next s;
                     s2 = insertCapitalMovement Manual_adjust delta None None note s1
                 in (Capital_json (capital s2), s2))))"

text \<open>A missing string of a request body is the empty string here: both are falsy.\<close>

definition post_clients :: "string \<Rightarrow> string \<Rightarrow> string \<Rightarrow> string option \<Rightarrow> db \<Rightarrow> reply \<times> db" where
  "post_clients fullName document phone address s =
     (if fullName = [] \<or> document = [] \<or> phone = []
      then (Status400 ''fullName, document and phone are required'', s)
      else (Created_id (next_client_id s),
            s\<lparr>clients := clients s @
                 [\<lparr>c_id = next_client_id s, c_full_name = fullName, c_document = document,
                   c_phone = phone, c_address = address\<rparr>],
              next_client_id := next_client_id s + 1\<rparr>))"

record loan_request =
  lr_clientId :: "nat option"
  lr_amount :: js_number
  lr_loanDate :: "date option"
  lr_installmentsCount :: js_number
  lr_notes :: "string option"

text \<open>
  The loop of the loan route that inserts the installments:
  \<^verbatim>\<open>for (let i = 1; i <= parsedInstallments; i += 1) {
    const dueDate = i === 1 ? currentDate : nextQuincenalAfter(currentDate);
    INSERT INTO installments ... [loanId, i, dueDate, installmentTotal, "Pendiente", 0]
    currentDate = dueDate; }\<close>
  \<open>None\<close> is an exception: the \<open>RangeError\<close> of \<open>nextQuincenalAfter\<close>, or the \<^verbatim>\<open>INSERT\<close> that
  rejects a due date the \<^verbatim>\<open>DATE\<close> column does not accept.
\<close>

function insert_installments_loop ::
  "zone \<Rightarrow> int \<Rightarrow> rat \<Rightarrow> nat \<Rightarrow> date_string \<Rightarrow> rat \<Rightarrow> db \<Rightarrow> db option" where
  "insert_installments_loop z i parsedInstallments loanId currentDate installmentTotal s =
     (if of_int i \<le> parsedInstallments
      then (case (if i = 1 then Some currentDate
                  else nextQuincenalAfter z (String_value currentDate)) of
              None \<Rightarrow> None
            | Some Garbled \<Rightarrow> None
            | Some (Iso dueDate) \<Rightarrow>
                if \<not> date_ok dueDate then None
                else insert_installments_loop z (i + 1) parsedInstallments loanId (Iso dueDate)
                       installmentTotal
                       (s\<lparr>installments := installments s @
                            [\<lparr>i_id = next_installment_id s, i_loan_id = loanId, i_number = i,
                              i_due_date = dueDate, i_amount = numeric2 installmentTotal,
                              i_status = Pendiente, i_paid_date = None, i_paid_amount = 0\<rparr>],
                          next_installment_id := next_installment_id s + 1\<rparr>))
      else Some s)"
  by pat_completeness auto
termination
  by (relation "measure (\<lambda>(z, i, n, l, c, t, s). nat (\<lfloor>n\<rfloor> + 1 - i))") (auto simp: le_floor_iff)

declare insert_installments_loop.simps [simp del]

text \<open>
  The writes of the loan route between \<^verbatim>\<open>BEGIN\<close> and \<^verbatim>\<open>COMMIT\<close>: the loan row, its
  installments, the capital (read before the transaction) and its movement.
\<close>

definition create_loan ::
  "zone \<Rightarrow> nat \<Rightarrow> rat \<Rightarrow> rat \<Rightarrow> date \<Rightarrow> string option \<Rightarrow> loan_fields \<Rightarrow> db \<Rightarrow> reply \<times> db" where
  "create_loan z clientId parsedAmount parsedInstallments loanDateValue notes computed s =
     (let loanId = next_loan_id s;
          s1 = s\<lparr>loans := loans s @
                 [\<lparr>l_id = loanId, l_client_id = clientId,
                   l_amount = numeric2 (round2 parsedAmount),
                   l_loan_date = loanDateValue,
                   l_installments_count = \<lfloor>parsedInstallments\<rfloor>,
                   l_status = Activo, l_notes = notes,
                   l_base_installment = numeric2 (lf_baseInstallment computed),
                   l_interest_per_installment = numeric2 (lf_interestPerInstallment computed),
                   l_installment_total = numeric2 (lf_installmentTotal computed),
                   l_total_payable = numeric2 (lf_totalPayable computed),
                   l_paid_total = 0,
                   l_pending_total = numeric2 (lf_totalPayable computed)\<rparr>],
               next_loan_id := loanId + 1\<rparr>
      in case nextQuincenalFrom z (String_value (Iso loanDateValue)) of
           None \<Rightarrow> (Thrown, s)
         | Some currentDate \<Rightarrow>
             (case insert_installments_loop z 1 parsedInstallments loanId currentDate
                     (lf_installmentTotal computed) s1 of
                None \<Rightarrow> (Thrown, s)
              | Some s2 \<Rightarrow>
                  (let newCapital = round2 (Number_of (capital s) - parsedAmount);
                       s3 = s2\<lparr>capital := numeric2 newCapital\<rparr>;
                       s4 = insertCapitalMovement Loan_movement (- parsedAmount) (Some loanId)
                              None (Some (''Pr'' @ [CHR 0xC3, CHR 0xA9] @ ''stamo creado'')) s3
                   in (Created_id loanId, s4))))"

text \<open>
  \<^verbatim>\<open>POST /loans\<close>. The first statement of the transaction inserts the loan: it rejects
  when \<open>installments_count\<close> is not a whole number (an \<^verbatim>\<open>INTEGER\<close> column) or \<open>loan_date\<close>
  is not a calendar date.
\<close>

definition post_loans :: "zone \<Rightarrow> date \<Rightarrow> fault \<Rightarrow> loan_request \<Rightarrow> db \<Rightarrow> reply \<times> db" where
  "post_loans z today fault req s =
     (case (lr_clientId req, lr_amount req, lr_installmentsCount req) of
        (Some clientId, Num parsedAmount, Num parsedInstallments) \<Rightarrow>
          if clientId = 0 \<or> parsedAmount \<le> 0
          then (Status400 ''clientId, amount and installmentsCount are required'', s)
          else if parsedInstallments \<le> 0
          then (Status400 ''installmentsCount must be greater than 0'', s)
          else if find_client clientId s = None then (Status404 ''client not found'', s)
          else if Number_of (capital s) < parsedAmount
          then (Status400 ''capital insuficiente'', s)
          else
            (let computed = computeLoanFields parsedAmount parsedInstallments;
                 loanDateValue = toDateOnly today (lr_loanDate req)
             in if fault = Error_in_transaction then (Thrown, s)
                else if of_int \<lfloor>parsedInstallments\<rfloor> \<noteq> parsedInstallments
                        \<or> \<not> date_ok loanDateValue
                then (Thrown, s)
                else create_loan z clientId parsedAmount parsedInstallments loanDateValue
                       (lr_notes req) computed s)
      | _ \<Rightarrow> (Status400 ''clientId, amount and installmentsCount are required'', s))"

text \<open>\<^verbatim>\<open>PUT /loans/:id/status\<close>: \<open>None\<close> is a status outside the allowed three.\<close>

definition find_loan_param :: "rat \<Rightarrow> db \<Rightarrow> loan_row option" where
  "find_loan_param loanId s = find (\<lambda>l. of_nat (l_id l) = loanId) (loans s)"

definition put_loan_status :: "js_number \<Rightarrow> loan_status option \<Rightarrow> db \<Rightarrow> reply \<times> db" where
  "put_loan_status param status s =
     (case param of
        NotFinite \<Rightarrow> (Status400 ''loan id must be a number'', s)
      | Num loanId \<Rightarrow>
          (case status of
             None \<Rightarrow> (Status400 ''status must be Activo, Finalizado or En mora'', s)
           | Some st \<Rightarrow>
               if of_int \<lfloor>loanId\<rfloor> \<noteq> loanId then (Thrown, s)
               else (case find_loan_param loanId s of
                       None \<Rightarrow> (Status404 ''loan not found'', s)
                     | Some l \<Rightarrow> (Status_json st, update_loan (l_id l) (\<lambda>l. l\<lparr>l_status := st\<rparr>) s))))"

section \<open>Payments\<close>

record payment_request =
  pr_clientId :: "nat option"
  pr_loanId :: "nat option"
  pr_installmentId :: "nat option"
  pr_amount :: js_number
  pr_paymentDate :: "date option"
  pr_notes :: "string option"
  pr_payoff :: bool

text \<open>The principal of an installment that is still owed, as both payoff loops compute it.\<close>

definition principalPending :: "rat \<Rightarrow> rat \<Rightarrow> installment_row \<Rightarrow> rat" where
  "principalPending baseInstallment interestPerInstallment inst =
     (let paidAmount = Number_of (i_paid_amount inst);
          principalPaid = min baseInstallment (max 0 (paidAmount - interestPerInstallment))
      in round2 (baseInstallment - principalPaid))"

fun payoff_total_loop :: "rat \<Rightarrow> rat \<Rightarrow> installment_row list \<Rightarrow> rat \<Rightarrow> rat" where
  "payoff_total_loop baseInstallment interestPerInstallment [] payoffTotal = payoffTotal"
| "payoff_total_loop baseInstallment interestPerInstallment (inst # rest) payoffTotal =
     (if principalPending baseInstallment interestPerInstallment inst \<le> 0
      then payoff_total_loop baseInstallment interestPerInstallment rest payoffTotal
      else payoff_total_loop baseInstallment interestPerInstallment rest
             (round2 (payoffTotal + principalPending baseInstallment interestPerInstallment inst)))"

fun payoff_update_loop :: "rat \<Rightarrow> rat \<Rightarrow> date \<Rightarrow> installment_row list \<Rightarrow> db \<Rightarrow> db" where
  "payoff_update_loop baseInstallment interestPerInstallment paymentDateValue [] s = s"
| "payoff_update_loop baseInstallment interestPerInstallment paymentDateValue (inst # rest) s =
     (if principalPending baseInstallment interestPerInstallment inst \<le> 0
      then payoff_update_loop baseInstallment interestPerInstallment paymentDateValue rest s
      else
        (let newPaid = round2 (Number_of (i_paid_amount inst)
                          + principalPending baseInstallment interestPerInstallment inst)
         in payoff_update_loop baseInstallment interestPerInstallment paymentDateValue rest
              (update_installment (i_id inst)
                 (\<lambda>r. r\<lparr>i_amount := numeric2 newPaid, i_paid_amount := numeric2 newPaid,
                        i_status := Pagada, i_paid_date := Some paymentDateValue\<rparr>) s)))"

text \<open>The allocation loop of a normal payment; \<open>startNumber\<close> is \<open>None\<close> for \<open>null\<close>.\<close>

fun payment_loop :: "int option \<Rightarrow> date \<Rightarrow> installment_row list \<Rightarrow> rat \<Rightarrow> db \<Rightarrow> db" where
  "payment_loop startNumber paymentDateValue [] remaining s = s"
| "payment_loop startNumber paymentDateValue (inst # rest) remaining s =
     (if remaining \<le> 0 then s
      else if (case startNumber of None \<Rightarrow> False | Some n \<Rightarrow> i_number inst < n)
      then payment_loop startNumber paymentDateValue rest remaining s
      else
        (let pending = round2 (Number_of (i_amount inst) - Number_of (i_paid_amount inst))
         in if pending \<le> 0 then payment_loop startNumber paymentDateValue rest remaining s
            else
              (let applied = (if remaining \<ge> pending then pending else remaining);
                   newPaid = round2 (Number_of (i_paid_amount inst) + applied);
                   status = (if newPaid \<ge> Number_of (i_amount inst) then Pagada
                             else i_status inst)
               in payment_loop startNumber paymentDateValue rest (round2 (remaining - applied))
                    (update_installment (i_id inst)
                       (\<lambda>r. r\<lparr>i_paid_amount := numeric2 newPaid, i_status := status,
                              i_paid_date := (if status = Pagada then Some paymentDateValue
                                              else i_paid_date inst)\<rparr>) s))))"

text \<open>
  The first lookup of the payment route: with an \<open>installmentId\<close> and no payoff, the
  installment joined with its loan decides the loan and the client.
\<close>

definition resolve_target ::
  "payment_request \<Rightarrow> db \<Rightarrow> reply + (installment_row option \<times> nat option \<times> nat option)" where
  "resolve_target req s =
     (if \<not> pr_payoff req \<and> truthy (pr_installmentId req)
      then (case pr_installmentId req of
              None \<Rightarrow> Inl (Status404 ''installment not found'')
            | Some installmentId \<Rightarrow>
                (case find_installment installmentId s of
                   None \<Rightarrow> Inl (Status404 ''installment not found'')
                 | Some row \<Rightarrow>
                     (case find_loan (i_loan_id row) s of
                        None \<Rightarrow> Inl (Status404 ''installment not found'')
                      | Some l \<Rightarrow> Inr (Some row, Some (i_loan_id row), Some (l_client_id l)))))
      else Inr (None, pr_loanId req, pr_clientId req))"

text \<open>
  The writes of the payment route, once every check has passed: the payment row, the
  installments (payoff: both loops over the rows read at the start and the loan row;
  normal payment: the allocation loop), the capital and its movement.
\<close>

definition apply_payment ::
  "bool \<Rightarrow> rat \<Rightarrow> nat \<Rightarrow> nat \<Rightarrow> nat option \<Rightarrow> date \<Rightarrow> string option \<Rightarrow> loan_row
     \<Rightarrow> installment_row option \<Rightarrow> installment_row list \<Rightarrow> db \<Rightarrow> reply \<times> db" where
  "apply_payment payoffRequested paymentAmount resolvedClientId resolvedLoanId installment_id
       paymentDateValue notes loan installmentRow rows s =
     (let paymentId = next_payment_id s;
          s1 = s\<lparr>payments := payments s @
                 [\<lparr>p_id = paymentId, p_client_id = resolvedClientId,
                   p_loan_id = resolvedLoanId, p_installment_id = installment_id,
                   p_payment_date = paymentDateValue, p_amount = numeric2 paymentAmount,
                   p_type = (if payoffRequested then Payoff_payment else Normal_payment),
                   p_notes = notes\<rparr>],
               next_payment_id := paymentId + 1\<rparr>;
          s2 = (if payoffRequested
                then
                  (let u = payoff_update_loop (Number_of (l_base_installment loan))
                             (Number_of (l_interest_per_installment loan)) paymentDateValue
                             rows s1;
                       updatedTotal =
                         round2 (case sql_sum (map i_amount (installments_of resolvedLoanId u))
                                 of None \<Rightarrow> 0 | Some v \<Rightarrow> Number_of v)
                   in update_loan resolvedLoanId
                        (\<lambda>l. l\<lparr>l_total_payable := numeric2 updatedTotal,
                               l_paid_total := numeric2 updatedTotal,
                               l_pending_total := numeric2 0,
                               l_status := Finalizado\<rparr>) u)
                else payment_loop (map_option i_number installmentRow) paymentDateValue rows
                       paymentAmount s1);
          nextCapital = round2 (Number_of (capital s2) + paymentAmount);
          s3 = s2\<lparr>capital := numeric2 nextCapital\<rparr>;
          s4 = insertCapitalMovement
                 (if payoffRequested then Payoff_movement else Payment_movement)
                 paymentAmount (Some resolvedLoanId) (Some paymentId)
                 (Some (if payoffRequested then ''Pago total registrado''
                        else ''Pago registrado'')) s3
      in (Created_payment paymentId paymentAmount, s4))"

text \<open>
  The statements of the payment route from \<^verbatim>\<open>BEGIN\<close> to \<^verbatim>\<open>COMMIT\<close>, on the connection's
  copy of the store: \<open>Inl\<close> is an exit through \<^verbatim>\<open>ROLLBACK\<close> (an early \<open>return\<close>, or
  \<open>Thrown\<close> when the insertion of the payment rejects: an unknown client or installment,
  a payment date that is no calendar date), \<open>Inr\<close> the loan, the reply and the store to
  commit.
\<close>

definition payments_transaction ::
  "date \<Rightarrow> payment_request \<Rightarrow> db \<Rightarrow> reply + (nat \<times> reply \<times> db)" where
  "payments_transaction today req s =
     (let payoffRequested = pr_payoff req;
          roundedAmount = (case pr_amount req of Num parsedAmount \<Rightarrow> round2 parsedAmount
                           | NotFinite \<Rightarrow> 0)
      in case resolve_target req s of
           Inl r \<Rightarrow> Inl r
         | Inr (installmentRow, resolvedLoan, resolvedClient) \<Rightarrow>
             (case resolvedLoan of
                None \<Rightarrow> Inl (Status400 ''loanId is required'')
              | Some resolvedLoanId \<Rightarrow>
                  if resolvedLoanId = 0 then Inl (Status400 ''loanId is required'')
                  else
                    (case find_loan resolvedLoanId s of
                       None \<Rightarrow> Inl (Status404 ''loan not found'')
                     | Some loan \<Rightarrow>
  (let resolvedClientId = (case resolvedClient of
                             None \<Rightarrow> l_client_id loan
                           | Some c \<Rightarrow> if c = 0 then l_client_id loan else c);
       rows = installments_by_number resolvedLoanId s;
       paidTotal = round2 (case sql_sum (map i_paid_amount (installments_of resolvedLoanId s))
                           of None \<Rightarrow> 0 | Some v \<Rightarrow> Number_of v);
       amountTotal = round2 (case sql_sum (map i_amount (installments_of resolvedLoanId s))
                             of None \<Rightarrow> 0 | Some v \<Rightarrow> Number_of v);
       pendingTotal = round2 (amountTotal - paidTotal)
   in if pendingTotal \<le> 0 then Inl (Status400 ''loan already paid'')
      else
        (let paymentDateValue = toDateOnly today (pr_paymentDate req);
             payoffTotal = payoff_total_loop (Number_of (l_base_installment loan))
                             (Number_of (l_interest_per_installment loan)) rows 0;
             paymentAmount = (if payoffRequested then payoffTotal else roundedAmount)
         in if payoffRequested \<and> payoffTotal \<le> 0 then Inl (Status400 ''loan already paid'')
            else if \<not> payoffRequested \<and> paymentAmount > pendingTotal
            then Inl (Status400 ''amount exceeds loan pending total'')
            else
              (let installment_id = (if payoffRequested then None else pr_installmentId req)
               in if find_client resolvedClientId s = None
                     \<or> (case installment_id of None \<Rightarrow> False
                         | Some i \<Rightarrow> find_installment i s = None)
                     \<or> \<not> date_ok paymentDateValue
                  then Inl Thrown
                  else Inr (resolvedLoanId,
                            apply_payment payoffRequested paymentAmount resolvedClientId
                              resolvedLoanId installment_id paymentDateValue (pr_notes req)
                              loan installmentRow rows s)))))))"

text \<open>
  \<^verbatim>\<open>POST /payments\<close>: the amount is checked before the connection is taken; after
  \<^verbatim>\<open>COMMIT\<close> the route calls \<open>updateLoanTotalsAndStatus\<close>, whose queries go through
  \<open>pool.query\<close>. An error there reaches the \<open>catch\<close> block, whose \<^verbatim>\<open>ROLLBACK\<close> finds no
  open transaction.
\<close>

definition post_payments :: "date \<Rightarrow> fault \<Rightarrow> payment_request \<Rightarrow> db \<Rightarrow> reply \<times> db" where
  "post_payments today fault req s =
     (if \<not> pr_payoff req \<and> (case pr_amount req of NotFinite \<Rightarrow> True
                               | Num parsedAmount \<Rightarrow> parsedAmount \<le> 0)
      then (Status400 ''amount must be greater than 0'', s)
      else if fault = Error_in_transaction then (Thrown, s)
      else (case payments_transaction today req s of
              Inl r \<Rightarrow> (r, s)
            | Inr (resolvedLoanId, r, s') \<Rightarrow>
                if fault = Error_after_commit then (Thrown, s')
                else (r, updateLoanTotalsAndStatus today resolvedLoanId s')))"

section \<open>Deleting, reading and maintenance routes\<close>

text \<open>
  A numeric path parameter is \<open>Number(req.params.id)\<close>; a query that compares an
  \<^verbatim>\<open>INTEGER\<close> key with a number that is not whole rejects.
\<close>

definition delete_loan :: "fault \<Rightarrow> js_number \<Rightarrow> db \<Rightarrow> reply \<times> db" where
  "delete_loan fault param s =
     (case param of
        NotFinite \<Rightarrow> (Status400 ''loan id must be a number'', s)
      | Num loanId \<Rightarrow>
          if fault = Error_in_transaction \<or> of_int \<lfloor>loanId\<rfloor> \<noteq> loanId then (Thrown, s)
          else (case find_loan_param loanId s of
                  None \<Rightarrow> (Status404 ''loan not found'', s)
                | Some l \<Rightarrow>
                    (case deleteLoanCascade (l_id l) s of
                       None \<Rightarrow> (Thrown, s)
                     | Some s' \<Rightarrow> (Deleted_ok, s'))))"

fun delete_loans_loop :: "loan_row list \<Rightarrow> db \<Rightarrow> db option" where
  "delete_loans_loop [] s = Some s"
| "delete_loans_loop (loan # rest) s =
     (case deleteLoanCascade (l_id loan) s of
        None \<Rightarrow> None
      | Some s' \<Rightarrow> delete_loans_loop rest s')"

text \<open>
  \<^verbatim>\<open>DELETE /clients/:id\<close>. Deleting the client row rejects while a payment names the
  client (\<open>payments.client_id REFERENCES clients(id)\<close>).
\<close>

definition delete_client :: "fault \<Rightarrow> js_number \<Rightarrow> db \<Rightarrow> reply \<times> db" where
  "delete_client fault param s =
     (case param of
        NotFinite \<Rightarrow> (Status400 ''client id must be a number'', s)
      | Num clientId \<Rightarrow>
          if fault = Error_in_transaction \<or> of_int \<lfloor>clientId\<rfloor> \<noteq> clientId then (Thrown, s)
          else (case find (\<lambda>c. of_nat (c_id c) = clientId) (clients s) of
                  None \<Rightarrow> (Status404 ''client not found'', s)
                | Some c \<Rightarrow>
                    (let rows = filter (\<lambda>l. l_client_id l = c_id c) (loans s)
                     in case delete_loans_loop rows s of
                          None \<Rightarrow> (Thrown, s)
                        | Some s' \<Rightarrow>
                            if \<exists>p \<in> set (payments s'). p_client_id p = c_id c
                            then (Thrown, s)
                            else (Deleted_client_ok (length rows),
                                  s'\<lparr>clients := filter (\<lambda>r. c_id r \<noteq> c_id c) (clients s')\<rparr>))))"

text \<open>
  \<^verbatim>\<open>GET /loans/:id\<close> repairs the schedule and refreshes the statuses before it answers
  with the loan row it read first and the installments; the list of payments of the
  answer is left out.
\<close>

definition get_loan :: "zone \<Rightarrow> date \<Rightarrow> fault \<Rightarrow> js_number \<Rightarrow> db \<Rightarrow> reply \<times> db" where
  "get_loan z today fault param s =
     (case param of
        NotFinite \<Rightarrow> (Thrown, s)
      | Num loanId \<Rightarrow>
          if of_int \<lfloor>loanId\<rfloor> \<noteq> loanId then (Thrown, s)
          else (case find_loan_param loanId s of
                  None \<Rightarrow> (Status404 ''loan not found'', s)
                | Some l \<Rightarrow>
                    (case ensureQuincenalInstallments z fault l s of
                       (True, s') \<Rightarrow> (Thrown, s')
                     | (False, s') \<Rightarrow>
                         (let s'' = refreshInstallmentStatuses today (l_id l) s'
                          in (Loan_json l (installments_by_number (l_id l) s'') [], s'')))))"

text \<open>
  \<^verbatim>\<open>POST /maintenance/fix-installment-dates\<close>: one transaction for each loan that needs
  the repair, over the loans read at the start in the order of their ids. An
  \<open>Error_in_transaction\<close> falls into the first transaction the route opens.
\<close>

fun fix_loop :: "zone \<Rightarrow> fault \<Rightarrow> loan_row list \<Rightarrow> nat \<Rightarrow> db \<Rightarrow> nat option \<times> db" where
  "fix_loop z fault [] fixed s = (Some fixed, s)"
| "fix_loop z fault (loan # rest) fixed s =
     (let rows = installments_by_number (l_id loan) s
      in if length rows \<le> 1 then fix_loop z fault rest fixed s
         else if length (remdups (map (\<lambda>row. toDateOnly_Date z (i_due_date row)) rows)) > 1
         then fix_loop z fault rest fixed s
         else (case buildQuincenalSchedule z (Date_object (l_loan_date loan))
                      (l_installments_count loan) of
                 None \<Rightarrow> (None, s)
               | Some schedule \<Rightarrow>
                   (case repair_transaction fault rows schedule s of
                      None \<Rightarrow> (None, s)
                    | Some s' \<Rightarrow> fix_loop z No_fault rest (fixed + 1) s')))"

definition fix_installment_dates :: "zone \<Rightarrow> fault \<Rightarrow> db \<Rightarrow> reply \<times> db" where
  "fix_installment_dates z fault s =
     (case fix_loop z fault (sort_key l_id (loans s)) 0 s of
        (None, s') \<Rightarrow> (Thrown, s')
      | (Some fixed, s') \<Rightarrow> (Fixed_json (length (loans s)) fixed, s'))"

section \<open>Sequences of requests\<close>

datatype request =
    Put_capital js_number
  | Post_capital_adjust js_number "string option"
  | Post_clients string string string "string option"
  | Post_loans loan_request
  | Post_payments payment_request
  | Put_loan_status js_number "loan_status option"
  | Delete_loan js_number
  | Delete_client js_number
  | Get_loan js_number
  | Fix_installment_dates

text \<open>
  One request, served in the zone \<open>z\<close> on the day \<open>today\<close> under the fault \<open>fault\<close>; the
  requests of a sequence are served one after the other.
\<close>

fun handle :: "zone \<Rightarrow> date \<Rightarrow> fault \<Rightarrow> request \<Rightarrow> db \<Rightarrow> reply \<times> db" where
  "handle z today fault (Put_capital a) s = put_capital a s"
| "handle z today fault (Post_capital_adjust d note) s = post_capital_adjust d note s"
| "handle z today fault (Post_clients n d p a) s = post_clients n d p a s"
| "handle z today fault (Post_loans req) s = post_loans z today fault req s"
| "handle z today fault (Post_payments req) s = post_payments today fault req s"
| "handle z today fault (Put_loan_status i st) s = put_loan_status i st s"
| "handle z today fault (Delete_loan i) s = delete_loan fault i s"
| "handle z today fault (Delete_client i) s = delete_client fault i s"
| "handle z today fault (Get_loan i) s = get_loan z today fault i s"
| "handle z today fault Fix_installment_dates s = fix_installment_dates z fault s"

fun serve :: "zone \<Rightarrow> (date \<times> fault \<times> request) list \<Rightarrow> db \<Rightarrow> db" where
  "serve z [] s = s"
| "serve z ((today, fault, r) # rs) s = serve z rs (snd (handle z today fault r s))"

section \<open>Auxiliary notions for the proofs\<close>

text \<open>
  The status rule in the words of the specification: paid in full is \<open>Pagada\<close>; otherwise
  past its due date is \<open>Atrasada\<close>; otherwise \<open>Pendiente\<close>.
\<close>

definition status_rule :: "date \<Rightarrow> installment_row \<Rightarrow> installment_status" where
  "status_rule today r =
     (if i_paid_amount r \<ge> i_amount r then Pagada
      else if date_less (i_due_date r) today then Atrasada
      else Pendiente)"

text \<open>The status the refresh leaves: only the paid amount and the amount decide it.\<close>

definition status_written :: "installment_row \<Rightarrow> installment_status" where
  "status_written r = (if i_paid_amount r \<ge> i_amount r then Pagada else Pendiente)"

text \<open>One turn of the refresh loop, as a single update.\<close>

definition refresh_step :: "installment_row \<Rightarrow> db \<Rightarrow> db" where
  "refresh_step x s =
     update_installment (i_id x) (\<lambda>r. r\<lparr>i_status := status_written x\<rparr>) s"

text \<open>Two stores that differ at most in their installments.\<close>

definition frame :: "db \<Rightarrow> db \<Rightarrow> bool" where
  "frame a b \<longleftrightarrow> capital a = capital b \<and> capital_movements a = capital_movements b
     \<and> clients a = clients b \<and> loans a = loans b \<and> payments a = payments b
     \<and> next_client_id a = next_client_id b \<and> next_loan_id a = next_loan_id b
     \<and> next_payment_id a = next_payment_id b"

text \<open>A store for the examples: one loan of 1000 in four installments, three of them paid.\<close>

definition example_rows :: "installment_row list" where
  "example_rows =
     [\<lparr>i_id = 1, i_loan_id = 1, i_number = 1,
       i_due_date = \<lparr>year = 2024, month = 1, day = 15\<rparr>, i_amount = 30000,
       i_status = Pendiente, i_paid_date = None, i_paid_amount = 30000\<rparr>,
      \<lparr>i_id = 2, i_loan_id = 1, i_number = 2,
       i_due_date = \<lparr>year = 2024, month = 2, day = 1\<rparr>, i_amount = 30000,
       i_status = Pendiente, i_paid_date = None, i_paid_amount = 10000\<rparr>,
      \<lparr>i_id = 3, i_loan_id = 1, i_number = 3,
       i_due_date = \<lparr>year = 2024, month = 2, day = 15\<rparr>, i_amount = 30000,
       i_status = Atrasada, i_paid_date = None, i_paid_amount = 0\<rparr>]"

definition example_db :: db where
  "example_db = initDb\<lparr>installments := example_rows, next_installment_id := 4\<rparr>"

text \<open>
  Requests for the examples: a client, a capital of 1500, a loan of 1000 in four
  installments, a payment of 900 and a payoff.
\<close>

definition day0 :: date where
  "day0 = \<lparr>year = 2024, month = 1, day = 10\<rparr>"

definition loan_1000_4 :: loan_request where
  "loan_1000_4 = \<lparr>lr_clientId = Some 1, lr_amount = Num 1000, lr_loanDate = Some day0,
     lr_installmentsCount = Num 4, lr_notes = None\<rparr>"

definition pay_900 :: payment_request where
  "pay_900 = \<lparr>pr_clientId = None, pr_loanId = Some 1, pr_installmentId = None,
     pr_amount = Num 900, pr_paymentDate = Some day0, pr_notes = None, pr_payoff = False\<rparr>"


definition client_db :: db where
  "client_db = serve Utc_or_west [(day0, No_fault, Post_clients ''Ana'' ''1'' ''2'' None),
                      (day0, No_fault, Put_capital (Num 1500))] initDb"

definition loan_db :: db where
  "loan_db = serve Utc_or_west [(day0, No_fault, Post_loans loan_1000_4)] client_db"

definition committed_db :: db where
  "committed_db = (case payments_transaction day0 pay_900 loan_db of
                     Inr (l, r, u) \<Rightarrow> u | Inl r \<Rightarrow> loan_db)"

definition paid_db :: db where
  "paid_db = updateLoanTotalsAndStatus day0 1 committed_db"








text \<open>
  The pending principal of an installment in cents, for a loan whose base installment
  and interest per installment are \<open>b\<close> and \<open>i\<close> cents, and the row a payoff leaves.
\<close>

definition pending_cents :: "int \<Rightarrow> int \<Rightarrow> installment_row \<Rightarrow> int" where
  "pending_cents b i r = b - min b (max 0 (i_paid_amount r - i))"

definition settle :: "int \<Rightarrow> int \<Rightarrow> date \<Rightarrow> installment_row \<Rightarrow> installment_row" where
  "settle b i d r =
     (if 0 < pending_cents b i r
      then r\<lparr>i_amount := i_paid_amount r + pending_cents b i r,
             i_paid_amount := i_paid_amount r + pending_cents b i r,
             i_status := Pagada, i_paid_date := Some d\<rparr>
      else r)"


text \<open>The columns of an installment and of a loan that \<open>store_ok\<close> reads.\<close>

definition money_key :: "installment_row \<Rightarrow> nat \<times> nat \<times> int \<times> int" where
  "money_key r = (i_id r, i_loan_id r, i_amount r, i_paid_amount r)"

definition loan_key :: "loan_row \<Rightarrow> nat \<times> int \<times> int" where
  "loan_key l = (l_id l, l_base_installment l, l_interest_per_installment l)"

definition same_money :: "db \<Rightarrow> db \<Rightarrow> bool" where
  "same_money s u \<longleftrightarrow>
     map money_key (installments u) = map money_key (installments s)
     \<and> map loan_key (loans u) = map loan_key (loans s)
     \<and> next_installment_id u = next_installment_id s \<and> next_loan_id u = next_loan_id s"


section \<open>Rounding\<close>

lemma Math_round_int: "0 \<le> e \<Longrightarrow> e < 1 / 2 \<Longrightarrow> Math_round (of_int c + e) = of_int c"
proof -
  assume a: "0 \<le> e" "e < 1 / 2"
  have "\<lfloor>of_int c + e + 1 / 2\<rfloor> = c" using a by (simp add: floor_eq_iff)
  then show ?thesis unfolding Math_round_def by simp
qed

lemma EPSILON_small: "0 < EPSILON" "EPSILON * 100 < 1 / 2"
  by (simp_all add: EPSILON_def)

lemma round2_cents: "round2 (of_int c / 100) = of_int c / 100"
proof -
  have "(of_int c / 100 + EPSILON) * 100 = of_int c + EPSILON * 100"
    by (simp add: algebra_simps)
  then show ?thesis
    unfolding round2_def using Math_round_int[of "EPSILON * 100" c] EPSILON_small by simp
qed

lemma round2_is_cents: "\<exists>k::int. round2 x = of_int k / 100"
  unfolding round2_def Math_round_def by blast

lemma round2_bounds: "x + EPSILON - 1 / 200 < round2 x" "round2 x \<le> x + EPSILON + 1 / 200"
proof -
  let ?y = "(x + EPSILON) * 100 + 1 / 2"
  have "of_int \<lfloor>?y\<rfloor> \<le> ?y" "?y < of_int \<lfloor>?y\<rfloor> + 1" by linarith+
  then show "x + EPSILON - 1 / 200 < round2 x" "round2 x \<le> x + EPSILON + 1 / 200"
    unfolding round2_def Math_round_def by (simp_all add: field_simps)
qed

lemma round2_nonneg: "0 \<le> x + EPSILON \<Longrightarrow> round2 x = round_half_away2 (x + EPSILON)"
  unfolding round2_def Math_round_def round_half_away2_def
  by (cases "x + EPSILON = 0") (simp_all add: sgn_if floor_eq_iff)

subsection \<open>Binary64 rounding\<close>

lemma powi_of_nat_exp: "0 \<le> k \<Longrightarrow> (2::rat) powi k = of_int (2 ^ nat k)"
  by (simp add: power_int_def)

lemma rat_abs_quotient:
  assumes "x \<noteq> 0" and "quotient_of \<bar>x\<bar> = (a, b)"
  shows "0 < a" "0 < b" "\<bar>x\<bar> = of_int a / of_int b"
proof -
  show b: "0 < b" using assms(2) by (rule quotient_of_denom_pos)
  show e: "\<bar>x\<bar> = of_int a / of_int b" using assms(2) by (rule quotient_of_div)
  have "0 < \<bar>x\<bar>" using assms(1) by simp
  then have "0 < (of_int a :: rat) / of_int b" using e by simp
  then show "0 < a" using b by (simp add: zero_less_divide_iff)
qed

lemma bitlen_powi:
  assumes "0 < a"
  shows "(2::rat) powi (bitlen a - 1) \<le> of_int a" "(of_int a :: rat) < 2 powi bitlen a"
proof -
  have p: "1 \<le> bitlen a" using assms bitlen_eq_zero_iff[of a] bitlen_nonneg[of a] by linarith
  from bitlen_bounds[OF assms] have 1: "2 ^ nat (bitlen a - 1) \<le> a" and 2: "a < 2 ^ nat (bitlen a)"
    by simp_all
  have "(of_int (2 ^ nat (bitlen a - 1)) :: rat) \<le> of_int a" using 1 by (simp only: of_int_le_iff)
  then show "(2::rat) powi (bitlen a - 1) \<le> of_int a" using p by (simp add: powi_of_nat_exp)
  have "(of_int a :: rat) < of_int (2 ^ nat (bitlen a))" using 2 by (simp only: of_int_less_iff)
  then show "(of_int a :: rat) < 2 powi bitlen a" using p by (simp add: powi_of_nat_exp)
qed

lemma floor_log2_bounds:
  assumes "x \<noteq> 0"
  shows "2 powi floor_log2 x \<le> \<bar>x\<bar>" and "\<bar>x\<bar> < 2 powi (floor_log2 x + 1)"
proof -
  obtain a b where q: "quotient_of \<bar>x\<bar> = (a, b)" by (cases "quotient_of \<bar>x\<bar>") blast
  note f = rat_abs_quotient[OF assms q]
  let ?e = "bitlen a - bitlen b"
  note ba = bitlen_powi[OF f(1)] and bb = bitlen_powi[OF f(2)]
  have pa: "(0::rat) < 2 powi (bitlen a - 1)" and pb: "(0::rat) < 2 powi (bitlen b - 1)"
    and pb': "(0::rat) < 2 powi bitlen b" by simp_all
  have bpos: "(0::rat) < of_int b" using f(2) by simp
  have up: "\<bar>x\<bar> < 2 powi (?e + 1)"
  proof -
    have "of_int a / of_int b < (2::rat) powi bitlen a / of_int b"
      using ba(2) bpos by (simp add: divide_strict_right_mono)
    also have "\<dots> \<le> 2 powi bitlen a / 2 powi (bitlen b - 1)"
      using bb(1) pb by (simp add: frac_le)
    also have "\<dots> = 2 powi (bitlen a - (bitlen b - 1))" by (simp add: power_int_diff)
    finally show ?thesis unfolding f(3) by (simp add: algebra_simps)
  qed
  have lo: "2 powi (?e - 1) < \<bar>x\<bar>"
  proof -
    have "(2::rat) powi (bitlen a - 1 - bitlen b) = 2 powi (bitlen a - 1) / 2 powi bitlen b"
      by (simp add: power_int_diff)
    also have "\<dots> < 2 powi (bitlen a - 1) / of_int b"
      using bb(2) bpos pa by (simp add: divide_strict_left_mono)
    also have "\<dots> \<le> of_int a / of_int b"
      using ba(1) bpos by (simp add: divide_right_mono)
    finally show ?thesis unfolding f(3) by (simp add: algebra_simps)
  qed
  have v: "floor_log2 x = (if 2 powi ?e \<le> \<bar>x\<bar> then ?e else ?e - 1)"
    by (simp add: floor_log2_def q Let_def)
  show "2 powi floor_log2 x \<le> \<bar>x\<bar>" using lo unfolding v by auto
  show "\<bar>x\<bar> < 2 powi (floor_log2 x + 1)" using up unfolding v by (auto simp: not_le)
qed

lemma round_to_even_error: "\<bar>of_int (round_to_even m) - m\<bar> \<le> 1 / 2"
proof -
  have a: "of_int \<lfloor>m\<rfloor> \<le> m" and b: "m < of_int \<lfloor>m\<rfloor> + 1" by linarith+
  consider "m - of_int \<lfloor>m\<rfloor> < 1 / 2" | "1 / 2 < m - of_int \<lfloor>m\<rfloor>"
    | "m - of_int \<lfloor>m\<rfloor> = 1 / 2" by linarith
  then show ?thesis
  proof cases
    case 1
    then have "round_to_even m = \<lfloor>m\<rfloor>" by (simp add: round_to_even_def Let_def)
    then show ?thesis using a 1 by simp
  next
    case 2
    then have "round_to_even m = \<lfloor>m\<rfloor> + 1" by (simp add: round_to_even_def Let_def)
    then show ?thesis using b 2 by simp
  next
    case 3
    then have "round_to_even m = \<lfloor>m\<rfloor> \<or> round_to_even m = \<lfloor>m\<rfloor> + 1"
      by (simp add: round_to_even_def Let_def)
    then show ?thesis using 3 by auto
  qed
qed

lemma quantum_cases:
  "quantum x = floor_log2 x - 52 \<or> quantum x = - 1074"
  by (auto simp: quantum_def max_def)

lemma fl_error_quantum: "\<bar>fl x - x\<bar> \<le> 2 powi (quantum x - 1)"
proof (cases "x = 0")
  case True
  then show ?thesis by (simp add: fl_def)
next
  case False
  let ?q = "2 powi quantum x :: rat"
  have qp: "0 < ?q" by simp
  have "fl x - x = (of_int (round_to_even (x / ?q)) - x / ?q) * ?q"
    using False qp by (simp add: fl_def field_simps)
  then have "\<bar>fl x - x\<bar> = \<bar>of_int (round_to_even (x / ?q)) - x / ?q\<bar> * ?q"
    using qp by (simp add: abs_mult)
  also have "\<dots> \<le> (1 / 2) * ?q"
    using round_to_even_error[of "x / ?q"] qp by (simp add: mult_right_mono)
  also have "\<dots> = 2 powi (quantum x - 1)" by (simp add: power_int_diff)
  finally show ?thesis .
qed

lemma tiny_nonneg: "0 \<le> tiny"
  by (simp add: tiny_def)

lemma tiny_small: "tiny \<le> 1 / 2 ^ 120"
proof -
  have "(2::rat) ^ 120 \<le> 2 ^ 1075" by (rule power_increasing) simp_all
  then show ?thesis unfolding tiny_def by (simp add: frac_le del: power_numeral)
qed

lemma powi_tiny: "(2::rat) powi (- 1075) = tiny"
proof -
  have "(2::rat) powi (- 1075) = inverse (2 powi 1075)" by (rule power_int_minus)
  also have "\<dots> = inverse (2 ^ 1075)" by (simp only: power_int_numeral)
  finally show ?thesis by (simp only: tiny_def inverse_eq_divide)
qed

lemma fl_error: "\<bar>fl x - x\<bar> \<le> \<bar>x\<bar> / 2 ^ 53 + tiny"
proof (cases "x = 0")
  case True
  then show ?thesis using tiny_nonneg by (simp add: fl_def)
next
  case False
  from quantum_cases[of x] show ?thesis
  proof
    assume q: "quantum x = floor_log2 x - 52"
    have "(2::rat) powi (quantum x - 1) = 2 powi (floor_log2 x - 53)" by (simp add: q)
    also have "\<dots> = 2 powi floor_log2 x / 2 ^ 53" by (simp add: power_int_diff)
    also have "\<dots> \<le> \<bar>x\<bar> / 2 ^ 53"
      using floor_log2_bounds(1)[OF False] by (simp add: divide_right_mono)
    finally have "\<bar>fl x - x\<bar> \<le> \<bar>x\<bar> / 2 ^ 53" using fl_error_quantum[of x] by linarith
    then show ?thesis using tiny_nonneg by linarith
  next
    assume q: "quantum x = - 1074"
    have "quantum x - 1 = - 1075" using q by simp
    then have "(2::rat) powi (quantum x - 1) = tiny" by (simp only: powi_tiny)
    then have "\<bar>fl x - x\<bar> \<le> tiny" using fl_error_quantum[of x] by simp
    moreover have "0 \<le> \<bar>x\<bar> / 2 ^ 53" by simp
    ultimately show ?thesis by linarith
  qed
qed

lemma big_facts: "1 \<le> big" "1000000 * big \<le> overflow_threshold"
proof -
  have "(1::rat) \<le> 2 ^ 1000" by (rule one_le_power) simp
  then show "1 \<le> big" by (simp only: big_def)
  have "(1000000::rat) \<le> 2 ^ 24" by simp
  then have "1000000 * (2::rat) ^ 1000 \<le> 2 ^ 24 * 2 ^ 1000"
    by (rule mult_right_mono) (simp del: power_numeral)
  also have "\<dots> = 2 ^ 1024" by (simp del: power_numeral flip: power_add)
  finally show "1000000 * big \<le> overflow_threshold" by (simp only: big_def overflow_threshold_def)
qed

lemma tiny_le_1: "tiny \<le> 1"
  using tiny_small by (simp add: order_trans[where y = "1 / 2 ^ 120"])

lemma fl_abs_bound: "\<bar>fl y\<bar> \<le> 2 * \<bar>y\<bar> + tiny"
proof -
  have "\<bar>y\<bar> / 2 ^ 53 \<le> \<bar>y\<bar>" by (simp add: divide_le_eq)
  then show ?thesis using fl_error[of y] by linarith
qed

lemma rounded_Finite:
  assumes "\<bar>y\<bar> \<le> 1000 * big"
  shows "rounded y = Finite (fl y)"
proof -
  have "\<bar>fl y\<bar> \<le> 2 * (1000 * big) + 1" using fl_abs_bound[of y] assms tiny_le_1 by linarith
  also have "\<dots> < overflow_threshold" using big_facts by linarith
  finally show ?thesis by (simp add: rounded_def Let_def not_le)
qed

text \<open>The three rounded operations of round2 on a finite argument that is not huge.\<close>

lemma round2_binary64_steps:
  assumes "\<bar>x\<bar> \<le> big"
  defines "a \<equiv> fl (x + EPSILON)"
  defines "t \<equiv> fl (a * 100)"
  defines "k \<equiv> \<lfloor>t + 1 / 2\<rfloor>"
  shows "round2_binary64 (Finite x) = Finite (fl (of_int k / 100))"
    and "\<bar>t - 100 * x\<bar> \<le> 100 * EPSILON + (\<bar>x\<bar> + EPSILON) / 2 ^ 44"
proof -
  note t1 = tiny_le_1 and b1 = big_facts(1)
  have e0: "0 < EPSILON" "EPSILON \<le> 1" by (simp_all add: EPSILON_def)
  let ?u = "\<bar>x\<bar> + EPSILON"
  have u: "\<bar>x + EPSILON\<bar> \<le> ?u" using e0 by linarith
  have s1: "\<bar>x + EPSILON\<bar> \<le> 1000 * big" using assms(1) u e0 b1 by linarith
  have r1: "rounded (x + EPSILON) = Finite a" unfolding a_def using s1 by (rule rounded_Finite)
  have ea: "\<bar>a - (x + EPSILON)\<bar> \<le> ?u / 2 ^ 53 + tiny"
  proof -
    have "\<bar>x + EPSILON\<bar> / 2 ^ 53 \<le> ?u / 2 ^ 53" using u by (simp add: divide_right_mono)
    then show ?thesis using fl_error[of "x + EPSILON"] unfolding a_def by linarith
  qed
  have abound: "\<bar>a\<bar> \<le> 2 * \<bar>x\<bar> + 2 * EPSILON + tiny"
  proof -
    have "2 * \<bar>x + EPSILON\<bar> + tiny \<le> 2 * \<bar>x\<bar> + 2 * EPSILON + tiny" using u by simp
    then show ?thesis unfolding a_def by (rule order_trans[OF fl_abs_bound])
  qed
  have s2: "\<bar>a * 100\<bar> \<le> 1000 * big"
  proof -
    have "\<bar>a * 100\<bar> = 100 * \<bar>a\<bar>" by (simp add: abs_mult)
    also have "\<dots> \<le> 1000 * big" using abound assms(1) e0 t1 b1 by linarith
    finally show ?thesis .
  qed
  have r2: "rounded (a * 100) = Finite t" unfolding t_def using s2 by (rule rounded_Finite)
  have et: "\<bar>t - a * 100\<bar> \<le> 100 * \<bar>a\<bar> / 2 ^ 53 + tiny"
    using fl_error[of "a * 100"] unfolding t_def by (simp add: abs_mult)
  have tbound: "\<bar>t\<bar> \<le> 200 * \<bar>a\<bar> + tiny"
    using fl_abs_bound[of "a * 100"] unfolding t_def by (simp add: abs_mult)
  have kb: "\<bar>(of_int k :: rat) - t\<bar> \<le> 1 / 2" unfolding k_def by linarith
  have s3: "\<bar>(of_int k :: rat) / 100\<bar> \<le> 1000 * big"
  proof -
    have "\<bar>(of_int k :: rat)\<bar> \<le> \<bar>t\<bar> + 1 / 2" using kb by linarith
    also have "\<dots> \<le> 100 * (1000 * big)" using tbound abound assms(1) e0 t1 b1 by linarith
    finally have "\<bar>(of_int k :: rat)\<bar> / 100 \<le> 100 * (1000 * big) / 100"
      by (rule divide_right_mono) simp
    then show ?thesis by simp
  qed
  have r3: "rounded (of_int k / 100) = Finite (fl (of_int k / 100))" using s3 by (rule rounded_Finite)
  show "round2_binary64 (Finite x) = Finite (fl (of_int k / 100))"
    unfolding round2_binary64_def by (simp add: r1 r2 r3[unfolded k_def] k_def)
  define U where "U = ?u / 2 ^ 53"
  define A where "A = \<bar>a\<bar> / 2 ^ 53"
  define D1 where "D1 = \<bar>t - a * 100\<bar>"
  define D2 where "D2 = \<bar>a - (x + EPSILON)\<bar>"
  have h1: "D1 \<le> 100 * A + tiny" using et by (simp add: D1_def A_def)
  have h2: "D2 \<le> U + tiny" using ea by (simp only: D2_def U_def)
  have h3: "A \<le> U + D2"
  proof -
    have "\<bar>a\<bar> \<le> ?u + D2" unfolding D2_def using u by linarith
    then have "\<bar>a\<bar> / 2 ^ 53 \<le> (?u + D2) / 2 ^ 53" by (rule divide_right_mono) simp
    also have "\<dots> = U + D2 / 2 ^ 53" by (simp add: U_def add_divide_distrib)
    also have "\<dots> \<le> U + D2" by (simp add: D2_def divide_le_eq)
    finally show ?thesis by (simp only: A_def)
  qed
  have h4: "tiny \<le> U"
  proof -
    have "tiny \<le> 1 / 2 ^ 120" by (rule tiny_small)
    also have "\<dots> \<le> EPSILON / 2 ^ 53" by (simp add: EPSILON_def)
    also have "\<dots> \<le> ?u / 2 ^ 53" by (rule divide_right_mono) simp_all
    finally show ?thesis by (simp only: U_def)
  qed
  have sum: "D1 + 100 * D2 \<le> 512 * U" using h1 h2 h3 h4 tiny_nonneg by linarith
  have "\<bar>t - 100 * x\<bar> \<le> D1 + 100 * D2 + 100 * EPSILON"
  proof -
    have tri: "\<bar>P + Q + R\<bar> \<le> \<bar>P\<bar> + \<bar>Q\<bar> + R" if "0 \<le> R" for P Q R :: rat
      using that by linarith
    have "t - 100 * x = (t - a * 100) + 100 * (a - (x + EPSILON)) + 100 * EPSILON"
      by (simp add: algebra_simps)
    moreover have "\<bar>100 * (a - (x + EPSILON))\<bar> = 100 * D2"
      by (simp only: abs_mult abs_numeral D2_def)
    moreover have "0 \<le> 100 * EPSILON" using e0 by simp
    ultimately show ?thesis
      using tri[of "100 * EPSILON" "t - a * 100" "100 * (a - (x + EPSILON))"] by (simp only: D1_def)
  qed
  also have "\<dots> \<le> 512 * U + 100 * EPSILON" using sum by linarith
  also have "\<dots> = 100 * EPSILON + ?u / 2 ^ 44" by (simp add: U_def)
  finally show "\<bar>t - 100 * x\<bar> \<le> 100 * EPSILON + (\<bar>x\<bar> + EPSILON) / 2 ^ 44" .
qed

lemma floor_half_eq:
  fixes t :: rat
  assumes "\<bar>t - of_int c\<bar> < 1 / 2"
  shows "\<lfloor>t + 1 / 2\<rfloor> = c"
proof -
  have "of_int c \<le> t + 1 / 2" "t + 1 / 2 < of_int c + 1" using assms by linarith+
  then show ?thesis by (simp add: floor_unique)
qed

lemma cents_le_big: "\<bar>c\<bar> \<le> cents_bound \<Longrightarrow> \<bar>of_int c / 100 :: rat\<bar> + 1 \<le> big"
proof -
  assume "\<bar>c\<bar> \<le> cents_bound"
  then have "\<bar>of_int c :: rat\<bar> \<le> 200000000000000" 
    unfolding cents_bound_def by (metis of_int_abs of_int_le_iff of_int_numeral)
  then have "\<bar>of_int c / 100 :: rat\<bar> + 1 \<le> 2 ^ 50" by simp
  also have "(2::rat) ^ 50 \<le> 2 ^ 1000" by (rule power_increasing) simp_all
  finally show ?thesis by (simp only: big_def)
qed

lemma round2_binary64_cents:
  assumes c: "\<bar>c\<bar> \<le> cents_bound" and y: "\<bar>y - of_int c / 100\<bar> \<le> 1 / 400"
  shows "round2_binary64 (Finite y) = Finite (fl (of_int c / 100))"
proof -
  have cb: "\<bar>of_int c :: rat\<bar> \<le> 200000000000000"
    using c unfolding cents_bound_def by (metis of_int_abs of_int_le_iff of_int_numeral)
  have yb: "\<bar>y\<bar> \<le> \<bar>of_int c / 100\<bar> + 1 / 400" using y by linarith
  then have ybig: "\<bar>y\<bar> \<le> big" using cents_le_big[OF c] by linarith
  note s = round2_binary64_steps[OF ybig]
  let ?t = "fl (fl (y + EPSILON) * 100)"
  have yn: "\<bar>y\<bar> \<le> 2000000000001" using yb cb by simp
  have e: "EPSILON \<le> 1 / 2 ^ 52" "0 \<le> EPSILON" by (simp_all add: EPSILON_def)
  have "(\<bar>y\<bar> + EPSILON) / 2 ^ 44 \<le> (2000000000001 + 1 / 2 ^ 52) / 2 ^ 44"
    using yn e by (intro divide_right_mono) simp_all
  also have "\<dots> \<le> 12 / 100" by simp
  finally have b1: "(\<bar>y\<bar> + EPSILON) / 2 ^ 44 \<le> 12 / 100" .
  have b2: "100 * EPSILON \<le> 1 / 100" by (simp add: EPSILON_def)
  have "\<bar>?t - 100 * y\<bar> \<le> 13 / 100" using s(2) b1 b2 by linarith
  moreover have "\<bar>100 * y - of_int c\<bar> \<le> 1 / 4"
  proof -
    have "100 * y - of_int c = 100 * (y - of_int c / 100)" by simp
    then have "\<bar>100 * y - of_int c\<bar> = 100 * \<bar>y - of_int c / 100\<bar>"
      by (simp only: abs_mult abs_numeral)
    then show ?thesis using y by linarith
  qed
  ultimately have "\<bar>?t - of_int c\<bar> < 1 / 2" by linarith
  then have "\<lfloor>?t + 1 / 2\<rfloor> = c" by (rule floor_half_eq)
  then show ?thesis using s(1) by simp
qed

lemma decimal_with_fl: "decimal_with y k = Some d \<Longrightarrow> fl d = y"
proof -
  assume a: "decimal_with y k = Some d"
  define q where "q = (10::rat) powi (floor_log10 y + 1 - int k)"
  define cands where "cands = map (\<lambda>m. sgn y * (of_int m * q))
     (if \<bar>y\<bar> / q - of_int \<lfloor>\<bar>y\<bar> / q\<rfloor> < of_int \<lceil>\<bar>y\<bar> / q\<rceil> - \<bar>y\<bar> / q
          \<or> (\<bar>y\<bar> / q - of_int \<lfloor>\<bar>y\<bar> / q\<rfloor> = of_int \<lceil>\<bar>y\<bar> / q\<rceil> - \<bar>y\<bar> / q \<and> even \<lfloor>\<bar>y\<bar> / q\<rfloor>)
      then [\<lfloor>\<bar>y\<bar> / q\<rfloor>, \<lceil>\<bar>y\<bar> / q\<rceil>] else [\<lceil>\<bar>y\<bar> / q\<rceil>, \<lfloor>\<bar>y\<bar> / q\<rfloor>])"
  have "(case filter (\<lambda>d. fl d = y) cands of [] \<Rightarrow> None | d # ds \<Rightarrow> Some d) = Some d"
    using a unfolding decimal_with_def Let_def cands_def q_def .
  then obtain ds where "filter (\<lambda>d. fl d = y) cands = d # ds" by (auto split: list.splits)
  then have "d \<in> set (filter (\<lambda>d. fl d = y) cands)" by simp
  then show ?thesis by simp
qed

lemma shortest_decimal_fl: "shortest_decimal y = y \<or> fl (shortest_decimal y) = y"
proof (cases "List.map_filter (decimal_with y) [1 ..< 18]")
  case Nil
  then show ?thesis by (simp add: shortest_decimal_def)
next
  case (Cons d ds)
  then have "d \<in> set (List.map_filter (decimal_with y) [1 ..< 18])" by simp
  then obtain k where "decimal_with y k = Some d"
    unfolding map_filter_def by auto
  then have "fl d = y" by (rule decimal_with_fl)
  then show ?thesis using Cons by (simp add: shortest_decimal_def)
qed

lemma numeric2_near:
  assumes "\<bar>d - of_int c / 100\<bar> < 1 / 200"
  shows "numeric2 d = c"
proof (cases "0 \<le> d")
  case True
  have "d * 100 - of_int c = 100 * (d - of_int c / 100)" by simp
  then have "\<bar>d * 100 - of_int c\<bar> = 100 * \<bar>d - of_int c / 100\<bar>" by (simp only: abs_mult abs_numeral)
  then have "\<bar>d * 100 - of_int c\<bar> < 1 / 2" using assms by linarith
  then have "\<lfloor>d * 100 + 1 / 2\<rfloor> = c" by (rule floor_half_eq)
  then show ?thesis using True by (simp add: numeric2_def)
next
  case False
  have "- d * 100 - of_int (- c) = - 100 * (d - of_int c / 100)" by simp
  then have "\<bar>- d * 100 - of_int (- c)\<bar> = 100 * \<bar>d - of_int c / 100\<bar>"
    by (simp only: abs_mult abs_minus abs_numeral)
  then have "\<bar>- d * 100 - of_int (- c)\<bar> < 1 / 2" using assms by linarith
  then have "\<lfloor>- d * 100 + 1 / 2\<rfloor> = - c" by (rule floor_half_eq)
  then show ?thesis using False by (simp add: numeric2_def)
qed

text \<open>A decimal that reads back as the double \<open>y\<close> is close to \<open>y\<close>.\<close>

lemma fl_inverse_near:
  assumes "fl d = y" and "\<bar>y\<bar> \<le> B" and "1 \<le> B"
  shows "\<bar>d - y\<bar> \<le> B / 2 ^ 51"
proof -
  have e: "\<bar>y - d\<bar> \<le> \<bar>d\<bar> / 2 ^ 53 + tiny" using fl_error[of d] assms(1) by simp
  have h: "\<bar>d\<bar> / 2 ^ 53 \<le> \<bar>d\<bar> / 2" by (simp add: divide_le_eq)
  have t: "tiny \<le> 1 / 2 ^ 53" using tiny_small by (simp add: order_trans[where y = "1 / 2 ^ 120"])
  have "\<bar>d\<bar> \<le> \<bar>y\<bar> + \<bar>d\<bar> / 2 + tiny" using e h by linarith
  then have "\<bar>d\<bar> \<le> 2 * B + 2 * tiny" using assms(2) by linarith
  moreover have "tiny \<le> 1 / 2" using t by (simp add: order_trans[where y = "1 / 2 ^ 53"])
  ultimately have "\<bar>d\<bar> \<le> 2 * B + 1" by linarith
  then have "\<bar>d\<bar> / 2 ^ 53 \<le> (2 * B + 1) / 2 ^ 53" by (rule divide_right_mono) simp
  then have "\<bar>y - d\<bar> \<le> (2 * B + 1) / 2 ^ 53 + 1 / 2 ^ 53" using e t by linarith
  also have "\<dots> = (2 * B + 2) / 2 ^ 53" by (simp add: add_divide_distrib)
  also have "\<dots> \<le> (4 * B) / 2 ^ 53" using assms(3) by (intro divide_right_mono) simp_all
  also have "\<dots> = B / 2 ^ 51" by simp
  finally show ?thesis by (simp add: abs_minus_commute)
qed

lemma fl_cents_near:
  assumes "\<bar>c\<bar> \<le> cents_bound"
  shows "\<bar>fl (of_int c / 100) - of_int c / 100\<bar> \<le> 1 / 4000"
proof -
  have cb: "\<bar>of_int c :: rat\<bar> \<le> 200000000000000"
    using assms unfolding cents_bound_def by (metis of_int_abs of_int_le_iff of_int_numeral)
  then have "\<bar>of_int c / 100 :: rat\<bar> \<le> 2000000000000" by simp
  then have "\<bar>of_int c / 100 :: rat\<bar> / 2 ^ 53 \<le> 2000000000000 / 2 ^ 53"
    by (rule divide_right_mono) simp
  also have "\<dots> \<le> 1 / 4000 - 1 / 2 ^ 53" by simp
  finally have "\<bar>of_int c / 100 :: rat\<bar> / 2 ^ 53 \<le> 1 / 4000 - 1 / 2 ^ 53" .
  moreover have "tiny \<le> 1 / 2 ^ 53" using tiny_small by (simp add: order_trans[where y = "1 / 2 ^ 120"])
  ultimately show ?thesis using fl_error[of "of_int c / 100"] by linarith
qed

lemma numeric2_shortest_decimal_cents:
  assumes "\<bar>c\<bar> \<le> cents_bound"
  shows "numeric2 (shortest_decimal (fl (of_int c / 100))) = c"
proof -
  let ?y = "fl (of_int c / 100)"
  note n = fl_cents_near[OF assms]
  have cb: "\<bar>of_int c :: rat\<bar> \<le> 200000000000000"
    using assms unfolding cents_bound_def by (metis of_int_abs of_int_le_iff of_int_numeral)
  then have "\<bar>of_int c / 100 :: rat\<bar> \<le> 2000000000000" by simp
  then have yb: "\<bar>?y\<bar> \<le> 2000000000001" using n by linarith
  have "\<bar>shortest_decimal ?y - ?y\<bar> \<le> 1 / 1000"
  proof -
    from shortest_decimal_fl[of ?y] show ?thesis
    proof
      assume "shortest_decimal ?y = ?y" then show ?thesis by simp
    next
      assume "fl (shortest_decimal ?y) = ?y"
      from fl_inverse_near[OF this yb] have "\<bar>shortest_decimal ?y - ?y\<bar> \<le> 2000000000001 / 2 ^ 51"
        by simp
      also have "\<dots> \<le> (1 / 1000 :: rat)" by simp
      finally show ?thesis .
    qed
  qed
  then have "\<bar>shortest_decimal ?y - of_int c / 100\<bar> < 1 / 200" using n by linarith
  then show ?thesis by (rule numeric2_near)
qed

lemma fl_lower:
  assumes "1 \<le> x"
  shows "3 / 4 * x \<le> fl x"
proof -
  have "\<bar>x\<bar> / 2 ^ 53 \<le> \<bar>x\<bar> / 8" by (simp add: divide_le_eq)
  moreover have "tiny \<le> 1 / 8" using tiny_small by (simp add: order_trans[where y = "1 / 2 ^ 120"])
  ultimately have "\<bar>fl x - x\<bar> \<le> x / 8 + 1 / 8" using fl_error[of x] assms by linarith
  then show ?thesis using assms by linarith
qed

lemma rounded_overflow: "overflow_threshold \<le> fl x \<Longrightarrow> rounded x = PlusInf"
proof -
  assume a: "overflow_threshold \<le> fl x"
  have "0 < overflow_threshold" by (simp add: overflow_threshold_def)
  then have "0 < fl x" "overflow_threshold \<le> \<bar>fl x\<bar>" using a by linarith+
  then show ?thesis by (simp add: rounded_def Let_def)
qed

lemma rounded_cases: "rounded x = Finite (fl x) \<or> rounded x = PlusInf \<or> rounded x = MinusInf"
  by (simp add: rounded_def Let_def)

lemma round2_binary64_overflow:
  assumes "overflow_threshold / 32 \<le> x"
  shows "round2_binary64 (Finite x) = PlusInf"
proof -
  have o: "32 \<le> overflow_threshold"
  proof -
    have a: "(2::rat) ^ 5 \<le> 2 ^ 1024" by (rule power_increasing) simp_all
    have b: "(2::rat) ^ 5 = 32" by simp
    show ?thesis using a unfolding b overflow_threshold_def .
  qed
  have e: "0 < EPSILON" by (simp add: EPSILON_def)
  have x1: "1 \<le> x + EPSILON" using assms o e by linarith
  have "3 / 4 * x \<le> 3 / 4 * (x + EPSILON)" using e by simp
  then have a: "3 / 4 * x \<le> fl (x + EPSILON)" using fl_lower[OF x1] by (rule order_trans)
  have rest: "divide64 (Math_round64 (times64 PlusInf (Finite 100))) (Finite 100) = PlusInf" by simp
  from rounded_cases[of "x + EPSILON"] show ?thesis
  proof (elim disjE)
    assume r: "rounded (x + EPSILON) = Finite (fl (x + EPSILON))"
    have p1: "1 \<le> fl (x + EPSILON) * 100" using a assms o by linarith
    define A where "A = fl (x + EPSILON)"
    define T where "T = fl (A * 100)"
    have "3 / 4 * (A * 100) \<le> T" unfolding T_def A_def by (rule fl_lower[OF p1])
    then have "75 * A \<le> T" by simp
    moreover have "3 / 4 * x \<le> A" using a by (simp only: A_def)
    ultimately have "overflow_threshold \<le> T" using assms o by linarith
    then have "overflow_threshold \<le> fl (fl (x + EPSILON) * 100)" by (simp only: T_def A_def)
    then have "rounded (fl (x + EPSILON) * 100) = PlusInf" by (rule rounded_overflow)
    then show ?thesis by (simp add: round2_binary64_def r)
  next
    assume "rounded (x + EPSILON) = PlusInf"
    then show ?thesis by (simp add: round2_binary64_def)
  next
    assume r: "rounded (x + EPSILON) = MinusInf"
    have "0 < fl (x + EPSILON)" using a assms o by linarith
    then have False using r by (simp add: rounded_def Let_def split: if_splits)
    then show ?thesis ..
  qed
qed

lemma round2_binary64_overflow_example: "round2_binary64 (Finite (2 ^ 1020)) = PlusInf"
proof -
  define P :: rat where "P = 2 ^ 1020"
  have "(2::rat) ^ 1024 = 2 ^ 4 * 2 ^ 1020" by (simp del: power_numeral flip: power_add)
  moreover have "(2::rat) ^ 4 = 16" by simp
  ultimately have "overflow_threshold = 16 * P" by (simp only: overflow_threshold_def P_def)
  moreover have "0 \<le> P" by (simp add: P_def del: power_numeral)
  ultimately have "overflow_threshold / 32 \<le> P" by (simp del: power_numeral)
  then show ?thesis unfolding P_def by (rule round2_binary64_overflow)
qed

lemma small_le_big: "\<bar>x\<bar> \<le> 2 ^ 50 \<Longrightarrow> \<bar>x\<bar> \<le> big"
proof -
  assume "\<bar>x\<bar> \<le> 2 ^ 50"
  also have "(2::rat) ^ 50 \<le> 2 ^ 1000" by (rule power_increasing) simp_all
  finally show ?thesis by (simp only: big_def)
qed

text \<open>
  C8, as the specification states it: \<open>round2 x\<close> is \<open>x + \<epsilon>\<close> rounded to two decimals with
  ties away from zero. The program's \<open>round2\<close> differs in three ways.

  \<^item> \<open>Math.round\<close> sends a tie towards \<open>+\<infinity>\<close>: at the double \<open>x = -(1/8 + \<epsilon>)\<close> the nudged
    value is \<open>-0.125\<close>, \<open>Math.round(-12.5)\<close> is \<open>-12\<close> and \<open>round2\<close> gives \<open>-0.12\<close>, where
    rounding away from zero gives \<open>-0.13\<close>.
  \<^item> From 2 on, \<open>\<epsilon>\<close> is at most half the distance between neighbouring doubles and the
    sum \<open>x + \<epsilon>\<close> may round back to \<open>x\<close>: the double of \<open>2.135\<close> lies below \<open>2.135\<close>, the
    nudged value lies above and rounds to \<open>2.14\<close>, but \<open>round2\<close> gives \<open>2.13\<close>.
  \<^item> The product by 100 overflows: \<open>round2 (2\<^sup>1\<^sup>0\<^sup>2\<^sup>0)\<close> is \<open>Infinity\<close>.
\<close>

theorem round2_binary64_counterexample:
  "fl (- (1 / 8 + 1 / 2 ^ 52)) = - (1 / 8 + 1 / 2 ^ 52)
   \<and> round2_binary64 (Finite (- (1 / 8 + 1 / 2 ^ 52))) = Finite (fl (- 12 / 100))
   \<and> round_half_away2 (- (1 / 8 + 1 / 2 ^ 52) + EPSILON) = - 13 / 100
   \<and> fl (- 12 / 100) \<noteq> fl (- 13 / 100)
   \<and> fl (2135 / 1000) < 2135 / 1000
   \<and> round2_binary64 (Finite (fl (2135 / 1000))) = Finite (fl (213 / 100))
   \<and> round_half_away2 (fl (2135 / 1000) + EPSILON) = 214 / 100
   \<and> fl (213 / 100) \<noteq> fl (214 / 100)
   \<and> round2_binary64 (Finite (2 ^ 1020)) = PlusInf"
proof -
  have d1: "fl (- (1 / 8 + 1 / 2 ^ 52)) = - (1 / 8 + 1 / 2 ^ 52)" by code_simp
  have "round2_binary64 (Finite (- (1 / 8 + 1 / 2 ^ 52)))
      = Finite (fl (of_int \<lfloor>fl (fl (- (1 / 8 + 1 / 2 ^ 52) + EPSILON) * 100) + 1 / 2\<rfloor> / 100))"
    by (rule round2_binary64_steps(1)) (rule small_le_big, simp)
  moreover have "fl (of_int \<lfloor>fl (fl (- (1 / 8 + 1 / 2 ^ 52) + EPSILON) * 100) + 1 / 2\<rfloor> / 100)
      = fl (- 12 / 100)" by code_simp
  ultimately have r1: "round2_binary64 (Finite (- (1 / 8 + 1 / 2 ^ 52))) = Finite (fl (- 12 / 100))"
    by simp
  have h1: "round_half_away2 (- (1 / 8 + 1 / 2 ^ 52) + EPSILON) = - 13 / 100" by code_simp
  have n1: "fl (- 12 / 100) \<noteq> fl (- 13 / 100)" by code_simp
  have d2: "fl (2135 / 1000) < 2135 / 1000" by code_simp
  have b2: "\<bar>fl (2135 / 1000)\<bar> \<le> 2 ^ 50" by code_simp
  have "round2_binary64 (Finite (fl (2135 / 1000)))
      = Finite (fl (of_int \<lfloor>fl (fl (fl (2135 / 1000) + EPSILON) * 100) + 1 / 2\<rfloor> / 100))"
    by (rule round2_binary64_steps(1)) (rule small_le_big, rule b2)
  moreover have "fl (of_int \<lfloor>fl (fl (fl (2135 / 1000) + EPSILON) * 100) + 1 / 2\<rfloor> / 100)
      = fl (213 / 100)" by code_simp
  ultimately have r2: "round2_binary64 (Finite (fl (2135 / 1000))) = Finite (fl (213 / 100))"
    by simp
  have h2: "round_half_away2 (fl (2135 / 1000) + EPSILON) = 214 / 100" by code_simp
  have n2: "fl (213 / 100) \<noteq> fl (214 / 100)" by code_simp
  show ?thesis using d1 r1 h1 n1 d2 r2 h2 n2 round2_binary64_overflow_example by blast
qed

text \<open>
  C8, amended. For a finite \<open>x\<close> of magnitude at most \<open>2\<^sup>1\<^sup>0\<^sup>0\<^sup>0\<close>, \<open>round2 x\<close> is the double
  nearest to \<open>k / 100\<close>, where \<open>k\<close> is \<open>Math.round t\<close>, the integer nearest to \<open>t\<close> with a tie going
  towards \<open>+\<infinity>\<close>, and \<open>t\<close>, the double the machine computes for \<open>(x + \<epsilon>) * 100\<close>, differs from
  \<open>100 x\<close> by at most \<open>100 \<epsilon> + (|x| + \<epsilon>) / 2\<^sup>4\<^sup>4\<close>. In particular, when \<open>x\<close> is within a quarter
  of a cent of a whole number \<open>c\<close> of cents, \<open>|c|\<close> at most \<open>2 \<sqdot> 10\<^sup>1\<^sup>4\<close>, \<open>round2 x\<close> is the double
  nearest to \<open>c / 100\<close>.
\<close>

theorem round2_binary64_nearest_cent:
  assumes "\<bar>x\<bar> \<le> big"
  shows "round2_binary64 (Finite x)
           = Finite (fl (of_int \<lfloor>fl (fl (x + EPSILON) * 100) + 1 / 2\<rfloor> / 100))
       \<and> \<bar>fl (fl (x + EPSILON) * 100) - 100 * x\<bar> \<le> 100 * EPSILON + (\<bar>x\<bar> + EPSILON) / 2 ^ 44
       \<and> (\<forall>c. \<bar>c\<bar> \<le> cents_bound \<and> \<bar>x - of_int c / 100\<bar> \<le> 1 / 400
              \<longrightarrow> round2_binary64 (Finite x) = Finite (fl (of_int c / 100)))"
  using round2_binary64_steps[OF assms] round2_binary64_cents[of _ x] by blast

theorem round2_binary64_nearest_cent_witness:
  "\<bar>fl (1005 / 1000)\<bar> \<le> big
   \<and> fl (1005 / 1000) < 1005 / 1000
   \<and> round2_binary64 (Finite (fl (1005 / 1000))) = Finite (fl (101 / 100))
   \<and> \<bar>5 / 4 :: rat\<bar> \<le> big
   \<and> round2_binary64 (Finite (5 / 4)) = Finite (5 / 4)"
proof -
  have b: "\<bar>fl (1005 / 1000)\<bar> \<le> 2 ^ 50" by code_simp
  have h1: "\<bar>fl (1005 / 1000)\<bar> \<le> big" using b by (rule small_le_big)
  have d: "fl (1005 / 1000) < 1005 / 1000" by code_simp
  have v: "fl (of_int \<lfloor>fl (fl (fl (1005 / 1000) + EPSILON) * 100) + 1 / 2\<rfloor> / 100) = fl (101 / 100)"
    by code_simp
  have r1: "round2_binary64 (Finite (fl (1005 / 1000))) = Finite (fl (101 / 100))"
    using round2_binary64_nearest_cent[OF h1] v by simp
  have h2: "\<bar>5 / 4 :: rat\<bar> \<le> big" by (rule small_le_big) simp
  have c: "\<bar>125 :: int\<bar> \<le> cents_bound" by (simp add: cents_bound_def)
  have e: "fl (of_int 125 / 100) = 5 / 4" by code_simp
  have q: "\<bar>5 / 4 - of_int 125 / 100 :: rat\<bar> \<le> 1 / 400" by simp
  have "round2_binary64 (Finite (5 / 4)) = Finite (fl (of_int 125 / 100))"
    using round2_binary64_nearest_cent[OF h2] c q by blast
  then have r2: "round2_binary64 (Finite (5 / 4)) = Finite (5 / 4)" by (simp only: e)
  show ?thesis using h1 d r1 h2 r2 by blast
qed

section \<open>The schedule\<close>




text \<open>
  C6: the schedule of the code leaves the fortnight where the server's zone is ahead of
  UTC or the year of the loan date is below 100. In a zone ahead of UTC a loan dated
  2024-01-15 with two installments is due on 2024-01-14 and 2024-01-31, where
  \<open>nextOnOrAfter\<close> and \<open>nextStrictlyAfter\<close> give 2024-01-15 and 2024-02-01; in any zone
  at or behind UTC a loan dated 0050-01-10 is due on 1950-01-15, where \<open>nextOnOrAfter\<close>
  gives 0050-01-15.
\<close>

theorem schedule_leaves_the_fortnight:
  "buildQuincenalSchedule East_of_utc (String_value (Iso \<lparr>year = 2024, month = 1, day = 15\<rparr>)) 2
     = Some [Iso \<lparr>year = 2024, month = 1, day = 14\<rparr>, Iso \<lparr>year = 2024, month = 1, day = 31\<rparr>]
   \<and> nextOnOrAfter \<lparr>year = 2024, month = 1, day = 15\<rparr> = \<lparr>year = 2024, month = 1, day = 15\<rparr>
   \<and> nextStrictlyAfter \<lparr>year = 2024, month = 1, day = 15\<rparr> = \<lparr>year = 2024, month = 2, day = 1\<rparr>
   \<and> buildQuincenalSchedule Utc_or_west (String_value (Iso \<lparr>year = 50, month = 1, day = 10\<rparr>)) 1
     = Some [Iso \<lparr>year = 1950, month = 1, day = 15\<rparr>]
   \<and> nextOnOrAfter \<lparr>year = 50, month = 1, day = 10\<rparr> = \<lparr>year = 50, month = 1, day = 15\<rparr>"
  by code_simp

section \<open>Installment status and loan totals\<close>

lemma Number_of_le [simp]: "Number_of a \<le> Number_of b \<longleftrightarrow> a \<le> b"
  by (simp add: Number_of_def divide_le_cancel)

lemma Number_of_less [simp]: "Number_of a < Number_of b \<longleftrightarrow> a < b"
  by (simp add: Number_of_def divide_less_cancel)

lemma update_installment_fields [simp]:
  "installments (update_installment i f s) = map (\<lambda>r. if i_id r = i then f r else r) (installments s)"
  "capital (update_installment i f s) = capital s"
  "capital_movements (update_installment i f s) = capital_movements s"
  "clients (update_installment i f s) = clients s"
  "loans (update_installment i f s) = loans s"
  "payments (update_installment i f s) = payments s"
  "next_client_id (update_installment i f s) = next_client_id s"
  "next_loan_id (update_installment i f s) = next_loan_id s"
  "next_installment_id (update_installment i f s) = next_installment_id s"
  "next_payment_id (update_installment i f s) = next_payment_id s"
  by (simp_all add: update_installment_def)

lemma update_loan_fields [simp]:
  "loans (update_loan i f s) = map (\<lambda>l. if l_id l = i then f l else l) (loans s)"
  "capital (update_loan i f s) = capital s"
  "capital_movements (update_loan i f s) = capital_movements s"
  "clients (update_loan i f s) = clients s"
  "installments (update_loan i f s) = installments s"
  "payments (update_loan i f s) = payments s"
  "next_client_id (update_loan i f s) = next_client_id s"
  "next_loan_id (update_loan i f s) = next_loan_id s"
  "next_installment_id (update_loan i f s) = next_installment_id s"
  "next_payment_id (update_loan i f s) = next_payment_id s"
  by (simp_all add: update_loan_def)

lemma db_eq_installments:
  "capital a = capital b \<Longrightarrow> capital_movements a = capital_movements b \<Longrightarrow> clients a = clients b
   \<Longrightarrow> loans a = loans b \<Longrightarrow> installments a = installments b \<Longrightarrow> payments a = payments b
   \<Longrightarrow> next_client_id a = next_client_id b \<Longrightarrow> next_loan_id a = next_loan_id b
   \<Longrightarrow> next_installment_id a = next_installment_id b \<Longrightarrow> next_payment_id a = next_payment_id b
   \<Longrightarrow> (a::db) = b"
  by simp

lemma same_id_same_row:
  "distinct (map i_id xs) \<Longrightarrow> x \<in> set xs \<Longrightarrow> y \<in> set xs \<Longrightarrow> i_id x = i_id y \<Longrightarrow> x = y"
  by (meson distinct_map inj_onD)

lemma refresh_loop_unfold:
  assumes "distinct (map i_id (installments s))" "x \<in> set (installments s)"
  shows "refresh_loop today (x # rest) s = refresh_loop today rest (refresh_step x s)"
proof -
  have same: "\<And>v. i_status x = v \<Longrightarrow> update_installment (i_id x) (\<lambda>r. r\<lparr>i_status := v\<rparr>) s = s"
  proof -
    fix v assume v: "i_status x = v"
    have "map (\<lambda>r. if i_id r = i_id x then r\<lparr>i_status := v\<rparr> else r) (installments s) = installments s"
    proof (rule map_idI)
      fix r assume "r \<in> set (installments s)"
      then have "i_id r = i_id x \<Longrightarrow> r = x"
        using same_id_same_row[OF assms(1) _ assms(2)] by blast
      then show "(if i_id r = i_id x then r\<lparr>i_status := v\<rparr> else r) = r"
        using v by (cases "i_id r = i_id x") auto
    qed
    then show "update_installment (i_id x) (\<lambda>r. r\<lparr>i_status := v\<rparr>) s = s"
      by (intro db_eq_installments) simp_all
  qed
  show ?thesis
    using same[of Pagada] same[of Atrasada] same[of Pendiente]
    by (cases "i_status x")
       (auto simp: refresh_step_def status_written_def Date_less_string_def less_than_def
          StringToNumber_date_def not_le not_less)
qed

lemma refresh_loop_map:
  "distinct (map i_id (installments s)) \<Longrightarrow> set rows \<subseteq> set (installments s) \<Longrightarrow> distinct (map i_id rows)
   \<Longrightarrow> refresh_loop today rows s =
       s\<lparr>installments := map (\<lambda>r. if i_id r \<in> i_id ` set rows then r\<lparr>i_status := status_written r\<rparr> else r) (installments s)\<rparr>"
proof (induction rows arbitrary: s)
  case Nil
  then show ?case by simp
next
  case (Cons x rest)
  let ?s' = "refresh_step x s"
  have xin: "x \<in> set (installments s)" using Cons.prems(2) by simp
  have inst': "installments ?s' = map (\<lambda>r. if i_id r = i_id x then r\<lparr>i_status := status_written x\<rparr> else r) (installments s)"
    by (simp add: refresh_step_def)
  have ids': "map i_id (installments ?s') = map i_id (installments s)"
    by (simp add: inst' o_def cong: map_cong)
  have d': "distinct (map i_id (installments ?s'))" using Cons.prems(1) ids' by simp
  have sub': "set rest \<subseteq> set (installments ?s')"
  proof
    fix y assume y: "y \<in> set rest"
    then have yin: "y \<in> set (installments s)" using Cons.prems(2) by auto
    have "i_id x \<notin> i_id ` set rest" using Cons.prems(3) by simp
    then have "i_id y \<noteq> i_id x" using y by (metis imageI)
    then have "(if i_id y = i_id x then y\<lparr>i_status := status_written x\<rparr> else y) = y" by simp
    then show "y \<in> set (installments ?s')" unfolding inst' using yin by force
  qed
  have d3: "distinct (map i_id rest)" using Cons.prems(3) by simp
  have xnot: "i_id x \<notin> i_id ` set rest" using Cons.prems(3) by auto
  have "refresh_loop today (x # rest) s = refresh_loop today rest ?s'"
    by (rule refresh_loop_unfold[OF Cons.prems(1) xin])
  also have "\<dots> = ?s'\<lparr>installments := map (\<lambda>r. if i_id r \<in> i_id ` set rest then r\<lparr>i_status := status_written r\<rparr> else r) (installments ?s')\<rparr>"
    by (rule Cons.IH[OF d' sub' d3])
  also have "\<dots> = s\<lparr>installments := map (\<lambda>r. if i_id r \<in> i_id ` set (x # rest) then r\<lparr>i_status := status_written r\<rparr> else r) (installments s)\<rparr>"
  proof -
    have "map (\<lambda>r. if i_id r \<in> i_id ` set rest then r\<lparr>i_status := status_written r\<rparr> else r) (installments ?s')
        = map (\<lambda>r. if i_id r \<in> i_id ` set (x # rest) then r\<lparr>i_status := status_written r\<rparr> else r) (installments s)"
      unfolding inst' map_map
    proof (rule map_cong[OF refl])
      fix r assume rin: "r \<in> set (installments s)"
      show "((\<lambda>r. if i_id r \<in> i_id ` set rest then r\<lparr>i_status := status_written r\<rparr> else r) \<circ>
             (\<lambda>r. if i_id r = i_id x then r\<lparr>i_status := status_written x\<rparr> else r)) r
          = (if i_id r \<in> i_id ` set (x # rest) then r\<lparr>i_status := status_written r\<rparr> else r)"
      proof (cases "i_id r = i_id x")
        case True
        then have "r = x" using same_id_same_row[OF Cons.prems(1) rin xin] by blast
        then show ?thesis using xnot by simp
      next
        case False
        then show ?thesis by simp
      qed
    qed
    then show ?thesis by (intro db_eq_installments) (simp_all add: refresh_step_def)
  qed
  finally show ?case .
qed


lemma refreshInstallmentStatuses_map:
  assumes "distinct (map i_id (installments s))"
  shows "refreshInstallmentStatuses today loanId s =
     s\<lparr>installments := map (\<lambda>r. if i_loan_id r = loanId then r\<lparr>i_status := status_written r\<rparr> else r) (installments s)\<rparr>"
proof -
  let ?rows = "installments_of loanId s"
  have sub: "set ?rows \<subseteq> set (installments s)" by (auto simp: installments_of_def)
  have d: "distinct (map i_id ?rows)" unfolding installments_of_def using assms by (rule distinct_map_filter)
  have "map (\<lambda>r. if i_id r \<in> i_id ` set ?rows then r\<lparr>i_status := status_written r\<rparr> else r) (installments s)
      = map (\<lambda>r. if i_loan_id r = loanId then r\<lparr>i_status := status_written r\<rparr> else r) (installments s)"
  proof (rule map_cong[OF refl])
    fix r assume rin: "r \<in> set (installments s)"
    have "i_id r \<in> i_id ` set ?rows \<longleftrightarrow> i_loan_id r = loanId"
    proof
      assume "i_id r \<in> i_id ` set ?rows"
      then obtain y where y: "y \<in> set ?rows" "i_id y = i_id r" by auto
      then have "y = r" using same_id_same_row[OF assms _ rin] sub by blast
      then show "i_loan_id r = loanId" using y(1) by (simp add: installments_of_def)
    next
      assume "i_loan_id r = loanId"
      then show "i_id r \<in> i_id ` set ?rows" using rin by (simp add: installments_of_def)
    qed
    then show "(if i_id r \<in> i_id ` set ?rows then r\<lparr>i_status := status_written r\<rparr> else r)
       = (if i_loan_id r = loanId then r\<lparr>i_status := status_written r\<rparr> else r)" by simp
  qed
  then show ?thesis unfolding refreshInstallmentStatuses_def refresh_loop_map[OF assms sub d] by simp
qed

lemma refresh_writes_no_Atrasada:
  assumes "distinct (map i_id (installments s))"
    and "r \<in> set (installments (refreshInstallmentStatuses today loanId s))"
    and "i_loan_id r = loanId"
  shows "i_status r = status_written r" and "i_status r \<noteq> Atrasada"
proof -
  from assms(2) obtain x where x: "x \<in> set (installments s)"
    "r = (if i_loan_id x = loanId then x\<lparr>i_status := status_written x\<rparr> else x)"
    unfolding refreshInstallmentStatuses_map[OF assms(1)] by auto
  then have "r = x\<lparr>i_status := status_written x\<rparr>" using assms(3) by (auto split: if_splits)
  then show "i_status r = status_written r" by (simp add: status_written_def)
  then show "i_status r \<noteq> Atrasada" by (simp add: status_written_def)
qed

text \<open>
  C5: the refresh never marks an installment overdue. On 2024-03-10 the route that
  reads the loan of the example, whose four unpaid installments were due from
  2024-01-15 to 2024-03-01, leaves all four \<open>Pendiente\<close>, where the rule of the claim
  gives \<open>Atrasada\<close>; and the refresh resets a row that was marked \<open>Atrasada\<close> to \<open>Pendiente\<close>.
\<close>

theorem refresh_never_marks_overdue:
  "map i_due_date (installments loan_db)
     = [\<lparr>year = 2024, month = 1, day = 15\<rparr>, \<lparr>year = 2024, month = 2, day = 1\<rparr>,
        \<lparr>year = 2024, month = 2, day = 15\<rparr>, \<lparr>year = 2024, month = 3, day = 1\<rparr>]
   \<and> map i_status (installments
         (snd (get_loan Utc_or_west \<lparr>year = 2024, month = 3, day = 10\<rparr> No_fault (Num 1) loan_db)))
     = [Pendiente, Pendiente, Pendiente, Pendiente]
   \<and> map (status_rule \<lparr>year = 2024, month = 3, day = 10\<rparr>) (installments loan_db)
     = [Atrasada, Atrasada, Atrasada, Atrasada]
   \<and> map i_status (installments
         (refreshInstallmentStatuses \<lparr>year = 2024, month = 3, day = 10\<rparr> 1 example_db))
     = [Pagada, Pendiente, Pendiente]
   \<and> map (status_rule \<lparr>year = 2024, month = 3, day = 10\<rparr>) (installments example_db)
     = [Pagada, Atrasada, Atrasada]"
proof -
  have 1: "map i_due_date (installments loan_db)
     = [\<lparr>year = 2024, month = 1, day = 15\<rparr>, \<lparr>year = 2024, month = 2, day = 1\<rparr>,
        \<lparr>year = 2024, month = 2, day = 15\<rparr>, \<lparr>year = 2024, month = 3, day = 1\<rparr>]"
    by code_simp
  have 2: "map i_status (installments
         (snd (get_loan Utc_or_west \<lparr>year = 2024, month = 3, day = 10\<rparr> No_fault (Num 1) loan_db)))
     = [Pendiente, Pendiente, Pendiente, Pendiente]"
    by code_simp
  have 3: "map (status_rule \<lparr>year = 2024, month = 3, day = 10\<rparr>) (installments loan_db)
     = [Atrasada, Atrasada, Atrasada, Atrasada]"
    by code_simp
  have 4: "map i_status (installments
         (refreshInstallmentStatuses \<lparr>year = 2024, month = 3, day = 10\<rparr> 1 example_db))
     = [Pagada, Pendiente, Pendiente]"
    by code_simp
  have 5: "map (status_rule \<lparr>year = 2024, month = 3, day = 10\<rparr>) (installments example_db)
     = [Pagada, Atrasada, Atrasada]"
    by code_simp
  show ?thesis using 1 2 3 4 5 by simp
qed

lemma frame_refl [simp]: "frame s s"
  by (simp add: frame_def)

lemma frame_trans: "frame a b \<Longrightarrow> frame b c \<Longrightarrow> frame a c"
  by (simp add: frame_def)

lemma frame_update_installment [simp]: "frame s (update_installment i f s)"
  by (simp add: frame_def)

lemma frame_refresh_loop: "frame s (refresh_loop today rows s)"
proof (induction rows arbitrary: s)
  case Nil
  then show ?case by simp
next
  case (Cons x rest)
  show ?case
    by (simp only: refresh_loop.simps) (auto intro: frame_trans[OF _ Cons.IH])
qed

lemma frame_payoff_update_loop: "frame s (payoff_update_loop b ip d rows s)"
proof (induction rows arbitrary: s)
  case Nil
  then show ?case by simp
next
  case (Cons x rest)
  show ?case
    by (simp only: payoff_update_loop.simps Let_def) (auto intro: frame_trans[OF _ Cons.IH])
qed

lemma frame_payment_loop: "frame s (payment_loop sn d rows rem s)"
proof (induction rows arbitrary: s rem)
  case Nil
  then show ?case by simp
next
  case (Cons x rest)
  show ?case
    by (simp only: payment_loop.simps Let_def) (auto intro: frame_trans[OF _ Cons.IH])
qed

lemma amounts_refresh_loop:
  "map (\<lambda>r. (i_id r, i_loan_id r, i_amount r, i_paid_amount r)) (installments (refresh_loop today rows s))
   = map (\<lambda>r. (i_id r, i_loan_id r, i_amount r, i_paid_amount r)) (installments s)"
proof (induction rows arbitrary: s)
  case Nil
  then show ?case by simp
next
  case (Cons x rest)
  have u: "\<And>v. map (\<lambda>r. (i_id r, i_loan_id r, i_amount r, i_paid_amount r))
              (installments (update_installment (i_id x) (\<lambda>r. r\<lparr>i_status := v\<rparr>) s))
            = map (\<lambda>r. (i_id r, i_loan_id r, i_amount r, i_paid_amount r)) (installments s)"
    by (simp add: o_def cong: map_cong)
  show ?case
    by (simp only: refresh_loop.simps Cons.IH) (auto simp: u)
qed

lemma sum_as_Number:
  "(case sql_sum xs of None \<Rightarrow> 0 | Some v \<Rightarrow> Number_of v) = Number_of (sum_list xs)"
  by (simp add: sql_sum_def Number_of_def)

lemma round2_Number_of [simp]: "round2 (Number_of c) = Number_of c"
  unfolding Number_of_def by (rule round2_cents)

lemma Number_of_diff: "Number_of a - Number_of b = Number_of (a - b)"
  by (simp add: Number_of_def diff_divide_distrib)


lemma floor_half [simp]: "\<lfloor>1 / 2 :: rat\<rfloor> = 0"
  by (simp add: floor_eq_iff)

lemma numeric2_Number_of [simp]: "numeric2 (Number_of c) = c"
  unfolding numeric2_def Number_of_def by simp

lemma installments_of_amounts:
  assumes "map (\<lambda>r. (i_id r, i_loan_id r, i_amount r, i_paid_amount r)) xs
         = map (\<lambda>r. (i_id r, i_loan_id r, i_amount r, i_paid_amount r)) ys"
  shows "map i_amount (filter (\<lambda>r. i_loan_id r = l) xs) = map i_amount (filter (\<lambda>r. i_loan_id r = l) ys)"
using assms proof (induction xs arbitrary: ys)
  case Nil
  then show ?case by simp
next
  case (Cons x xs)
  then obtain y ys' where ys: "ys = y # ys'" by (cases ys) auto
  with Cons show ?case by auto
qed

lemma aggregator_totals:
  fixes today loanId s
  defines "s' \<equiv> updateLoanTotalsAndStatus today loanId s"
  assumes "l \<in> set (loans s')" "l_id l = loanId"
  shows "l_paid_total l = sum_list (map i_paid_amount (installments_of loanId s'))"
    and "l_pending_total l = sum_list (map i_amount (installments_of loanId s')) - sum_list (map i_paid_amount (installments_of loanId s'))"
proof -
  let ?s1 = "refreshInstallmentStatuses today loanId s"
  have inst: "installments s' = installments ?s1"
    by (simp add: s'_def updateLoanTotalsAndStatus_def Let_def)
  have io: "installments_of loanId s' = installments_of loanId ?s1"
    by (simp add: installments_of_def inst)
  let ?P = "sum_list (map i_paid_amount (installments_of loanId ?s1))"
  let ?A = "sum_list (map i_amount (installments_of loanId ?s1))"
  from assms(2) obtain l0 st where l0: "l0 \<in> set (loans ?s1)"
    "l = (if l_id l0 = loanId
          then l0\<lparr>l_paid_total := ?P, l_pending_total := ?A - ?P, l_status := st\<rparr> else l0)"
    by (auto simp add: s'_def updateLoanTotalsAndStatus_def Let_def sum_as_Number Number_of_diff)
  have "l_id l0 = loanId" using assms(3) l0(2) by (cases "l_id l0 = loanId") auto
  then have l: "l = l0\<lparr>l_paid_total := ?P, l_pending_total := ?A - ?P, l_status := st\<rparr>"
    using l0(2) by simp
  show "l_paid_total l = sum_list (map i_paid_amount (installments_of loanId s'))"
    by (simp add: l io)
  show "l_pending_total l = sum_list (map i_amount (installments_of loanId s')) - sum_list (map i_paid_amount (installments_of loanId s'))"
    by (simp add: l io)
qed

lemma Number_of_pos [simp]: "0 < Number_of c \<longleftrightarrow> 0 < c" "Number_of c \<le> 0 \<longleftrightarrow> c \<le> 0"
  by (simp_all add: Number_of_def)

lemma payments_transaction_InrE:
  assumes "payments_transaction today req s = Inr (lid, r, u)"
  obtains loan amt cid ir where
    "find_loan lid s = Some loan"
    "lid \<noteq> 0"
    "find_client cid s \<noteq> None"
    "date_ok (toDateOnly today (pr_paymentDate req))"
    "amt = (if pr_payoff req
            then payoff_total_loop (Number_of (l_base_installment loan))
                   (Number_of (l_interest_per_installment loan)) (installments_by_number lid s) 0
            else (case pr_amount req of Num a \<Rightarrow> round2 a | NotFinite \<Rightarrow> 0))"
    "0 < amt \<or> \<not> pr_payoff req"
    "0 < sum_list (map i_amount (installments_of lid s)) - sum_list (map i_paid_amount (installments_of lid s))"
    "apply_payment (pr_payoff req) amt cid lid
                (if pr_payoff req then None else pr_installmentId req)
                (toDateOnly today (pr_paymentDate req)) (pr_notes req) loan ir
                (installments_by_number lid s) s = (r, u)"
  using assms
  unfolding payments_transaction_def Let_def sum_as_Number round2_Number_of Number_of_diff
  by (auto split: sum.splits option.splits if_splits prod.splits simp: not_le; blast)


lemma payment_loop_fields [simp]:
  "capital (payment_loop sn d rows rem s) = capital s"
  "capital_movements (payment_loop sn d rows rem s) = capital_movements s"
  "clients (payment_loop sn d rows rem s) = clients s"
  "loans (payment_loop sn d rows rem s) = loans s"
  "payments (payment_loop sn d rows rem s) = payments s"
  "next_client_id (payment_loop sn d rows rem s) = next_client_id s"
  "next_loan_id (payment_loop sn d rows rem s) = next_loan_id s"
  "next_payment_id (payment_loop sn d rows rem s) = next_payment_id s"
  using frame_payment_loop[of s sn d rows rem] by (simp_all add: frame_def)

lemma payoff_update_loop_fields [simp]:
  "capital (payoff_update_loop b ip d rows s) = capital s"
  "capital_movements (payoff_update_loop b ip d rows s) = capital_movements s"
  "clients (payoff_update_loop b ip d rows s) = clients s"
  "loans (payoff_update_loop b ip d rows s) = loans s"
  "payments (payoff_update_loop b ip d rows s) = payments s"
  "next_client_id (payoff_update_loop b ip d rows s) = next_client_id s"
  "next_loan_id (payoff_update_loop b ip d rows s) = next_loan_id s"
  "next_payment_id (payoff_update_loop b ip d rows s) = next_payment_id s"
  using frame_payoff_update_loop[of s b ip d rows] by (simp_all add: frame_def)

lemma refresh_loop_fields [simp]:
  "capital (refresh_loop today rows s) = capital s"
  "capital_movements (refresh_loop today rows s) = capital_movements s"
  "clients (refresh_loop today rows s) = clients s"
  "loans (refresh_loop today rows s) = loans s"
  "payments (refresh_loop today rows s) = payments s"
  "next_client_id (refresh_loop today rows s) = next_client_id s"
  "next_loan_id (refresh_loop today rows s) = next_loan_id s"
  "next_payment_id (refresh_loop today rows s) = next_payment_id s"
  using frame_refresh_loop[of s today rows] by (simp_all add: frame_def)

lemma insertCapitalMovement_fields [simp]:
  "capital (insertCapitalMovement t a l p n s) = capital s"
  "capital_movements (insertCapitalMovement t a l p n s) = capital_movements s @
     [\<lparr>cm_type = t, cm_amount = numeric2 a, cm_loan_id = l, cm_payment_id = p, cm_note = n\<rparr>]"
  "clients (insertCapitalMovement t a l p n s) = clients s"
  "loans (insertCapitalMovement t a l p n s) = loans s"
  "installments (insertCapitalMovement t a l p n s) = installments s"
  "payments (insertCapitalMovement t a l p n s) = payments s"
  "next_client_id (insertCapitalMovement t a l p n s) = next_client_id s"
  "next_loan_id (insertCapitalMovement t a l p n s) = next_loan_id s"
  "next_installment_id (insertCapitalMovement t a l p n s) = next_installment_id s"
  "next_payment_id (insertCapitalMovement t a l p n s) = next_payment_id s"
  by (simp_all add: insertCapitalMovement_def)

lemma apply_payment_facts:
  assumes "apply_payment po amt cid lid iid d notes loan ir rows s = (r, u)"
  shows "r = Created_payment (next_payment_id s) amt"
    and "payments u = payments s @
          [\<lparr>p_id = next_payment_id s, p_client_id = cid, p_loan_id = lid, p_installment_id = iid,
            p_payment_date = d, p_amount = numeric2 amt,
            p_type = (if po then Payoff_payment else Normal_payment), p_notes = notes\<rparr>]"
    and "map l_id (loans u) = map l_id (loans s)"
    and "capital u = numeric2 (round2 (Number_of (capital s) + amt))"
    and "capital_movements u = capital_movements s @
          [\<lparr>cm_type = (if po then Payoff_movement else Payment_movement), cm_amount = numeric2 amt,
            cm_loan_id = Some lid, cm_payment_id = Some (next_payment_id s),
            cm_note = Some (if po then ''Pago total registrado'' else ''Pago registrado'')\<rparr>]"
    and "clients u = clients s"
  using assms unfolding apply_payment_def Let_def
  by (auto simp: o_def cong: map_cong)

lemma updateLoanTotalsAndStatus_fields [simp]:
  "capital (updateLoanTotalsAndStatus today lid s) = capital s"
  "capital_movements (updateLoanTotalsAndStatus today lid s) = capital_movements s"
  "clients (updateLoanTotalsAndStatus today lid s) = clients s"
  "payments (updateLoanTotalsAndStatus today lid s) = payments s"
  "map l_id (loans (updateLoanTotalsAndStatus today lid s)) = map l_id (loans s)"
  by (simp_all add: updateLoanTotalsAndStatus_def refreshInstallmentStatuses_def Let_def o_def cong: map_cong)

lemma find_loan_Some: "find_loan lid s = Some l \<Longrightarrow> l \<in> set (loans s) \<and> l_id l = lid"
  unfolding find_loan_def by (auto simp: find_Some_iff)

lemma payments_transaction_Inl:
  "payments_transaction today req s = Inl r \<Longrightarrow> r \<noteq> Created_payment pid amt"
  unfolding payments_transaction_def Let_def resolve_target_def
  by (auto split: sum.splits option.splits if_splits prod.splits)

text \<open>
  C4: a payment or payoff that succeeds ends with the refresh of the loan it was
  recorded against, and leaves that loan with \<open>paid_total + pending_total\<close> equal to the
  sum of the amounts of its installments, to the cent.
\<close>

theorem paid_plus_pending_after_payment:
  assumes "post_payments today No_fault req s = (Created_payment pid amt, s')"
  shows "\<exists>loanId. (\<exists>p \<in> set (payments s'). p_id p = pid \<and> p_loan_id p = loanId)
           \<and> (\<exists>l \<in> set (loans s'). l_id l = loanId)
           \<and> (\<forall>l \<in> set (loans s'). l_id l = loanId \<longrightarrow>
                 l_paid_total l + l_pending_total l
                   = sum_list (map i_amount (installments_of loanId s')))"
proof -
  from assms obtain lid r u where
    tx: "payments_transaction today req s = Inr (lid, r, u)"
    and r: "r = Created_payment pid amt"
    and s': "s' = updateLoanTotalsAndStatus today lid u"
    unfolding post_payments_def
    by (auto split: if_splits sum.splits prod.splits dest: payments_transaction_Inl)
  from tx obtain loan a cid ir where
    loan: "find_loan lid s = Some loan"
    and ap: "apply_payment (pr_payoff req) a cid lid
                (if pr_payoff req then None else pr_installmentId req)
                (toDateOnly today (pr_paymentDate req)) (pr_notes req) loan ir
                (installments_by_number lid s) s = (r, u)"
    by (rule payments_transaction_InrE)
  note f = apply_payment_facts[OF ap]
  have pid: "pid = next_payment_id s" using f(1) r by simp
  have 1: "\<exists>p \<in> set (payments s'). p_id p = pid \<and> p_loan_id p = lid"
    by (simp add: s' f(2) pid)
  have "lid \<in> set (map l_id (loans s))" using find_loan_Some[OF loan] by force
  then have "lid \<in> set (map l_id (loans s'))" by (simp add: s' f(3))
  then have 2: "\<exists>l \<in> set (loans s'). l_id l = lid" by auto
  have 3: "\<forall>l \<in> set (loans s'). l_id l = lid \<longrightarrow>
                 l_paid_total l + l_pending_total l = sum_list (map i_amount (installments_of lid s'))"
    using aggregator_totals[of _ today lid u] by (auto simp: s')
  show ?thesis using 1 2 3 by blast
qed

lemma pay_900_transaction:
  "payments_transaction day0 pay_900 loan_db = Inr (1, Created_payment 1 900, committed_db)"
  by code_simp

lemma pay_900_served:
  "post_payments day0 No_fault pay_900 loan_db = (Created_payment 1 900, paid_db)"
  by (simp add: post_payments_def pay_900_transaction paid_db_def) (simp add: pay_900_def)

theorem paid_plus_pending_after_payment_witness:
  "post_payments day0 No_fault pay_900 loan_db = (Created_payment 1 900, paid_db)
   \<and> map (\<lambda>l. (l_id l, l_paid_total l, l_pending_total l)) (loans paid_db) = [(1, 90000, 30000)]
   \<and> (\<exists>loanId.
         (\<exists>p \<in> set (payments paid_db). p_id p = 1 \<and> p_loan_id p = loanId)
         \<and> (\<exists>l \<in> set (loans paid_db). l_id l = loanId)
         \<and> (\<forall>l \<in> set (loans paid_db). l_id l = loanId \<longrightarrow>
              l_paid_total l + l_pending_total l
                = sum_list (map i_amount (installments_of loanId paid_db))))"
proof -
  have v: "map (\<lambda>l. (l_id l, l_paid_total l, l_pending_total l)) (loans paid_db) = [(1, 90000, 30000)]"
    by code_simp
  show ?thesis
    using pay_900_served v paid_plus_pending_after_payment[OF pay_900_served] by blast
qed


section \<open>Loan creation and the amount of a payoff\<close>





lemma Number_of_numeric2_round2 [simp]: "Number_of (numeric2 (round2 x)) = round2 x"
proof -
  obtain k :: int where "round2 x = of_int k / 100" using round2_is_cents by blast
  then have "round2 x = Number_of k" by (simp add: Number_of_def)
  then show ?thesis by simp
qed









section \<open>The capital and its movements\<close>




lemma numeric2_minus_Number_of [simp]: "numeric2 (- Number_of c) = - c"
proof -
  have "- Number_of c = Number_of (- c)" by (simp add: Number_of_def)
  then show ?thesis by (simp only: numeric2_Number_of)
qed






















text \<open>
  Outside whole cents the two writes of an adjustment can differ: the capital is
  \<open>round2\<close> of the sum, the movement stores the raw delta, which the column rounds.
\<close>

lemma adjust_half_cent:
  "capital (serve Utc_or_west [(day0, No_fault, Put_capital (Num 1)),
                   (day0, No_fault, Post_capital_adjust (Num (- (5 / 1000))) None)] initDb) = 100
   \<and> map cm_amount (capital_movements
        (serve Utc_or_west [(day0, No_fault, Put_capital (Num 1)),
                (day0, No_fault, Post_capital_adjust (Num (- (5 / 1000))) None)] initDb)) = [100, - 1]"
  by code_simp





section \<open>Transactions\<close>










section \<open>Repairing a schedule\<close>



section \<open>Payoff\<close>














lemma settle_keys [simp]: "i_id (settle b i d r) = i_id r" "i_loan_id (settle b i d r) = i_loan_id r"
  by (simp_all add: settle_def)

lemma installments_of_map:
  assumes "\<And>r. i_loan_id (g r) = i_loan_id r"
  shows "installments_of lid (s\<lparr>installments := map g (installments s)\<rparr>)
       = map g (installments_of lid s)"
  unfolding installments_of_def by (simp add: filter_map o_def assms)









section \<open>What every served store satisfies\<close>

text \<open>
  The property \<open>store_ok\<close> holds of the initial store and is kept by every request,
  whatever the fault: the routes that write no amount keep \<open>same_money\<close>, the deletions
  remove rows, loan creation adds rows of a fresh loan, a normal payment keeps
  \<open>paid_within\<close>, and a payoff leaves every installment of its loan paid in full.
\<close>

lemma same_money_refl [simp]: "same_money s s"
  by (simp add: same_money_def)








































lemma payment_loop_next_installment_id [simp]:
  "next_installment_id (payment_loop sn d rows rem s) = next_installment_id s"
  by (induction rows arbitrary: rem s) (simp_all add: Let_def)



lemma payoff_update_loop_next_installment_id [simp]:
  "next_installment_id (payoff_update_loop b i d rows s) = next_installment_id s"
  by (induction rows arbitrary: s) (simp_all add: Let_def)













end
